(* ===== verification/Prelude.thy ===== *)
theory Prelude
  imports Complex_Main
begin

text \<open>
  Shared vocabulary of the development: the types that name the model's quantities
  (timestamps, pixels), the JavaScript numeric operations the sources rely on
  (the remainder operator \<open>%\<close>, \<open>Math.max.apply\<close>, the \<open>||\<close> default of a number)
  and the generic lemmas on them that the component theories use through \<open>simp\<close>.
  The collections \<open>anim_defs\<close> and \<open>slider_defs\<close> gather the definitions that a
  proof about the animation driver or the slider unfolds.
\<close>

named_theorems anim_defs "definitions of the animation operations, unfolded together"
named_theorems slider_defs "definitions of the slider operations, unfolded together"

type_synonym ms = int \<comment> \<open>\<open>new Date().valueOf()\<close>: integral milliseconds\<close>
type_synonym px = real \<comment> \<open>a CSS length in pixels, a JavaScript number\<close>

subsection \<open>JavaScript numbers\<close>

text \<open>
  JavaScript's \<open>a % b\<close> is the truncated remainder: its sign is the sign of the
  dividend. Isabelle's \<open>mod\<close> on \<open>int\<close> is the floored one. Both agree on a
  non-negative dividend, which is how the slider uses the operator.
  (A zero divisor gives \<open>NaN\<close> in JavaScript; the slider never divides by zero.)
\<close>

definition js_rem :: "int \<Rightarrow> int \<Rightarrow> int" where
  "js_rem a b = sgn a * (\<bar>a\<bar> mod \<bar>b\<bar>)"

lemma js_rem_nonneg [simp]: "0 \<le> a \<Longrightarrow> js_rem a b = a mod \<bar>b\<bar>"
  by (cases "a = 0") (simp_all add: js_rem_def)

lemma js_rem_neg: "a < 0 \<Longrightarrow> js_rem a b = - ((- a) mod \<bar>b\<bar>)"
  by (simp add: js_rem_def)

text \<open>\<open>x || d\<close> on a number: \<open>0\<close> and a missing argument are falsy.\<close>

definition js_or :: "real option \<Rightarrow> real \<Rightarrow> real" where
  "js_or v d = (case v of Some x \<Rightarrow> if x = 0 then d else x | None \<Rightarrow> d)"

text \<open>
  \<open>Math.max.apply(null, xs)\<close> on a non-empty array; the sources only apply it to
  the non-empty array of slider items.
\<close>

fun js_max_apply :: "real list \<Rightarrow> real" where
  "js_max_apply (x # xs) = fold max xs x"

lemma fold_max_ge_init: "(m::real) \<le> fold max xs m"
proof (induction xs arbitrary: m)
  case Nil
  then show ?case by simp
next
  case (Cons y ys)
  have "max y m \<le> fold max ys (max y m)" by (rule Cons.IH)
  then show ?case by simp
qed

lemma fold_max_ge_elem: "x \<in> set xs \<Longrightarrow> (x::real) \<le> fold max xs m"
proof (induction xs arbitrary: m)
  case Nil
  then show ?case by simp
next
  case (Cons y ys)
  show ?case
  proof (cases "x = y")
    case True
    have "max y m \<le> fold max ys (max y m)" by (rule fold_max_ge_init)
    with True show ?thesis by simp
  next
    case False
    with Cons show ?thesis by simp
  qed
qed

lemma js_max_apply_ge [simp]: "x \<in> set xs \<Longrightarrow> x \<le> js_max_apply xs"
  by (cases xs) (auto simp: fold_max_ge_init fold_max_ge_elem)

text \<open>On a non-empty array \<open>Math.max.apply\<close> is the maximum of its elements.\<close>

lemma js_max_apply_Max: "xs \<noteq> [] \<Longrightarrow> js_max_apply xs = Max (set xs)"
  by (cases xs) (simp_all add: Max.set_eq_fold [symmetric])

subsection \<open>The unit interval\<close>

text \<open>Progress values of the animation driver live in \<open>[0, 1]\<close>.\<close>

definition in_unit :: "real \<Rightarrow> bool" where
  "in_unit p \<longleftrightarrow> 0 \<le> p \<and> p \<le> 1"

lemma in_unit_simps [simp]:
  "in_unit 0" "in_unit 1" "in_unit (1 - p) \<longleftrightarrow> in_unit p"
  by (auto simp: in_unit_def)

lemma in_unit_add_ratio:
  assumes "0 \<le> p" "0 \<le> e" "0 < d" "p + e / d < 1"
  shows "in_unit (p + e / d)"
  using assms by (simp add: in_unit_def)

lemma ratio_ge_1:
  assumes "0 < d" "d \<le> e"
  shows "1 \<le> (e::real) / d"
  using assms by simp

end
