(* ===== verification/Animation.thy ===== *)
theory Animation
  imports Prelude
begin

text \<open>
  The animation driver of \<open>src/Scripts/Animation.js\<close>: a progress-over-time
  object advanced by \<open>requestAnimationFrame\<close> callbacks. Its closure variables and
  its public field \<open>reverseFlag\<close> are the record \<open>anim\<close>; the browser's queue of
  pending \<open>animate\<close> callbacks of this object is the counter \<open>queued\<close>. The
  overridable methods \<open>onUpdate\<close> and \<open>onFinish\<close> are the record \<open>anim_hooks\<close>,
  over the state \<open>'s\<close> of whoever owns the animation; \<open>run\<close> and \<open>animate\<close>
  call into them and are defined once for every owner.
\<close>

section \<open>State and plain operations\<close>

definition STANDARD_DURATION :: real where
  "STANDARD_DURATION = 1000"

record anim =
  start :: ms
  duration :: real
  progress :: real
  paused :: bool
  cancelled :: bool
  reverseFlag :: bool
  cycled :: bool
  queued :: nat

text \<open>
  \<open>new Animation(dur)\<close>. The source leaves \<open>start\<close> and \<open>progress\<close> undefined
  until the first \<open>run()\<close>, which sets both; the model starts them at \<open>0\<close>.
\<close>

definition new_Animation :: "real option \<Rightarrow> anim" where
  "new_Animation dur =
     \<lparr>start = 0, duration = js_or dur STANDARD_DURATION, progress = 0,
      paused = False, cancelled = False, reverseFlag = False, cycled = False, queued = 0\<rparr>"

definition setDuration :: "real \<Rightarrow> anim \<Rightarrow> anim" where
  [anim_defs]: "setDuration dur a = a\<lparr>duration := dur\<rparr>"

definition cancel :: "anim \<Rightarrow> anim" where
  [anim_defs]: "cancel a = a\<lparr>cancelled := True\<rparr>"

definition pause :: "anim \<Rightarrow> anim" where
  [anim_defs]: "pause a = a\<lparr>paused := True\<rparr>"

definition resume :: "ms \<Rightarrow> anim \<Rightarrow> anim" where
  [anim_defs]: "resume now a = a\<lparr>start := now, paused := False\<rparr>"

text \<open>
  \<open>reverse(flag)\<close> and \<open>cycle(flag)\<close>: \<open>None\<close> is a call without the argument
  (\<open>reverse\<close>) or with an argument that is not a boolean (\<open>cycle\<close>).
\<close>

definition reverse :: "bool option \<Rightarrow> anim \<Rightarrow> anim" where
  [anim_defs]: "reverse arg a =
     (let flag = (case arg of None \<Rightarrow> \<not> reverseFlag a | Some f \<Rightarrow> f)
      in if reverseFlag a \<noteq> flag
         then a\<lparr>reverseFlag := flag, progress := 1 - progress a\<rparr>
         else a)"

definition slow :: "real \<Rightarrow> anim \<Rightarrow> anim" where
  [anim_defs]: "slow factor a = a\<lparr>duration := duration a * factor\<rparr>"

definition cycle :: "bool option \<Rightarrow> anim \<Rightarrow> anim" where
  [anim_defs]: "cycle arg a =
     (case arg of Some flag \<Rightarrow> a\<lparr>cycled := flag\<rparr> | None \<Rightarrow> a\<lparr>cycled := \<not> cycled a\<rparr>)"

text \<open>The reverse-adjusted progress handed to \<open>onUpdate\<close>.\<close>

definition report :: "anim \<Rightarrow> real" where
  [anim_defs]: "report a = (if reverseFlag a then 1 - progress a else progress a)"

section \<open>One frame\<close>

text \<open>
  The body of \<open>animate()\<close> up to the call of a hook: a paused frame re-queues
  itself; otherwise the elapsed time is added, and the frame either finishes
  (progress clamped to 1, \<open>onFinish\<close> to be called) or queues the next frame unless
  cancelled and hands the reverse-adjusted progress to \<open>onUpdate\<close>.
\<close>

datatype tick = Rescheduled | Updated real | Finished

definition animate_tick :: "ms \<Rightarrow> anim \<Rightarrow> anim \<times> tick" where
  [anim_defs]: "animate_tick now a =
     (if paused a then (a\<lparr>queued := Suc (queued a)\<rparr>, Rescheduled)
      else
        let p = progress a + real_of_int (now - start a) / duration a
        in if 1 \<le> p then (a\<lparr>progress := 1, start := now\<rparr>, Finished)
           else
             let a' = a\<lparr>progress := p, start := now,
                        queued := (if cancelled a then queued a else Suc (queued a))\<rparr>
             in (a', Updated (report a')))"

section \<open>Hooks, run and animate\<close>

text \<open>
  The methods an owner overrides. \<open>onFinish\<close> receives the owner's way back into
  \<open>run()\<close> (the slider's \<open>onFinish\<close> chains the next step through it).
  \<open>anim_of\<close> and \<open>set_anim\<close> locate the animation inside the owner's state.
\<close>

record 's anim_hooks =
  anim_of :: "'s \<Rightarrow> anim"
  set_anim :: "anim \<Rightarrow> 's \<Rightarrow> 's"
  onUpdate :: "real \<Rightarrow> 's \<Rightarrow> 's"
  onFinish :: "('s \<Rightarrow> 's option) \<Rightarrow> 's \<Rightarrow> 's option"

text \<open>
  \<open>run()\<close> (with \<open>onStart()\<close>) and \<open>animate()\<close>. One synchronous call chain
  happens at one instant \<open>now\<close>. The first argument is fuel, the depth of nested
  \<open>run\<close>/\<open>animate\<close> calls; \<open>None\<close> means the chain would not return.
\<close>

fun run_with :: "nat \<Rightarrow> 's anim_hooks \<Rightarrow> ms \<Rightarrow> 's \<Rightarrow> 's option"
and animate_with :: "nat \<Rightarrow> 's anim_hooks \<Rightarrow> ms \<Rightarrow> 's \<Rightarrow> 's option" where
  "run_with 0 h now s = None"
| "run_with (Suc n) h now s =
     (let a = (anim_of h s)\<lparr>start := now, paused := False, cancelled := False, progress := 0\<rparr>;
          s1 = set_anim h a s;
          s2 = onUpdate h (if reverseFlag a then 1 else 0) s1
      in animate_with n h now s2)"
| "animate_with 0 h now s = None"
| "animate_with (Suc n) h now s =
     (case animate_tick now (anim_of h s) of
        (a', Rescheduled) \<Rightarrow> Some (set_anim h a' s)
      | (a', Updated r) \<Rightarrow> Some (onUpdate h r (set_anim h a' s))
      | (a', Finished) \<Rightarrow>
          (case onFinish h (run_with n h now) (set_anim h a' s) of
             None \<Rightarrow> None
           | Some s' \<Rightarrow> if cycled (anim_of h s') then run_with n h now s' else Some s'))"

text \<open>A display frame runs one queued \<open>animate\<close> callback of this animation.\<close>

definition frame_with :: "nat \<Rightarrow> 's anim_hooks \<Rightarrow> ms \<Rightarrow> 's \<Rightarrow> 's option" where
  "frame_with n h now s =
     (let a = anim_of h s
      in if queued a = 0 then Some s
         else animate_with n h now (set_anim h (a\<lparr>queued := queued a - 1\<rparr>) s))"

section \<open>The prototype's default hooks\<close>

text \<open>
  \<open>Animation.prototype.onUpdate\<close> cancels the animation and prints a warning;
  \<open>Animation.prototype.onFinish\<close> calls \<open>this.onUpdate\<close> with the final value,
  whichever \<open>onUpdate\<close> the object has. An object that overrides nothing is the
  pair of its animation and the number of warnings printed.
\<close>

definition proto_onUpdate :: "real \<Rightarrow> anim \<times> nat \<Rightarrow> anim \<times> nat" where
  "proto_onUpdate p s = (cancel (fst s), Suc (snd s))"

definition proto_onFinish ::
  "('s \<Rightarrow> anim) \<Rightarrow> (real \<Rightarrow> 's \<Rightarrow> 's) \<Rightarrow> 's \<Rightarrow> 's option" where
  "proto_onFinish get upd s = Some (upd (if reverseFlag (get s) then 0 else 1) s)"

definition proto_hooks :: "(anim \<times> nat) anim_hooks" where
  "proto_hooks =
     \<lparr>anim_of = fst, set_anim = (\<lambda>a s. (a, snd s)), onUpdate = proto_onUpdate,
      onFinish = (\<lambda>run. proto_onFinish fst proto_onUpdate)\<rparr>"

section \<open>Predicates and runs used by the properties\<close>

text \<open>
  Well-formedness of the driver: a positive duration and a progress in \<open>[0, 1]\<close>.
  \<open>hooks_ok\<close> is what \<open>run()\<close> needs of an owner's hooks: \<open>anim_of\<close> reads back
  what \<open>set_anim\<close> stored, and \<open>onUpdate\<close> leaves the clock fields of the animation
  alone (it may cancel it, as the prototype's does).
\<close>

definition anim_wf :: "anim \<Rightarrow> bool" where
  "anim_wf a \<longleftrightarrow> 0 < duration a \<and> in_unit (progress a)"

definition hooks_ok :: "'s anim_hooks \<Rightarrow> bool" where
  "hooks_ok h \<longleftrightarrow> (\<forall>a s. anim_of h (set_anim h a s) = a) \<and>
     (\<forall>r s. let a = anim_of h s; b = anim_of h (onUpdate h r s) in
        start b = start a \<and> progress b = progress a \<and> paused b = paused a)"

text \<open>Successive frames of one animation at the given instants, hooks aside.\<close>

fun tick_run :: "ms list \<Rightarrow> anim \<Rightarrow> anim" where
  "tick_run [] a = a"
| "tick_run (t # ts) a = tick_run ts (fst (animate_tick t a))"

text \<open>
  The public methods as a datatype of calls, so that a client's sequence of method
  calls and display frames is a list. \<open>call_typed\<close> is the argument type the spec
  gives the numeric methods: a positive duration and a positive factor.
\<close>

datatype anim_call =
  SetDuration real | Cancel | Pause | Resume ms | Reverse "bool option" | Slow real | Cycle "bool option"

definition call_method :: "anim_call \<Rightarrow> anim \<Rightarrow> anim" where
  "call_method m a =
     (case m of
        SetDuration d \<Rightarrow> setDuration d a
      | Cancel \<Rightarrow> cancel a
      | Pause \<Rightarrow> pause a
      | Resume now \<Rightarrow> resume now a
      | Reverse arg \<Rightarrow> reverse arg a
      | Slow factor \<Rightarrow> slow factor a
      | Cycle arg \<Rightarrow> cycle arg a)"

definition call_typed :: "anim_call \<Rightarrow> bool" where
  "call_typed m = (case m of SetDuration d \<Rightarrow> 0 < d | Slow factor \<Rightarrow> 0 < factor | _ \<Rightarrow> True)"

datatype anim_op = Call anim_call | FrameAt ms

fun anim_ops :: "anim_op list \<Rightarrow> anim \<Rightarrow> anim" where
  "anim_ops [] a = a"
| "anim_ops (Call m # ops) a = anim_ops ops (call_method m a)"
| "anim_ops (FrameAt t # ops) a = anim_ops ops (fst (animate_tick t a))"

text \<open>A sequence is well-typed when every call is and every frame comes no earlier
  than the clock's last reading.\<close>

fun ops_typed :: "anim_op list \<Rightarrow> anim \<Rightarrow> bool" where
  "ops_typed [] a = True"
| "ops_typed (Call m # ops) a = (call_typed m \<and> ops_typed ops (call_method m a))"
| "ops_typed (FrameAt t # ops) a = (start a \<le> t \<and> ops_typed ops (fst (animate_tick t a)))"

section \<open>Properties of the driver\<close>

subsection \<open>Frames\<close>

lemma animate_tick_fields [simp]:
  "duration (fst (animate_tick now a)) = duration a"
  "paused (fst (animate_tick now a)) = paused a"
  "cancelled (fst (animate_tick now a)) = cancelled a"
  "reverseFlag (fst (animate_tick now a)) = reverseFlag a"
  "cycled (fst (animate_tick now a)) = cycled a"
  by (simp_all add: animate_tick_def Let_def)

lemma animate_tick_unpaused:
  assumes "\<not> paused a"
  shows "start (fst (animate_tick now a)) = now"
    and "progress (fst (animate_tick now a)) =
           min 1 (progress a + real_of_int (now - start a) / duration a)"
  using assms by (simp_all add: animate_tick_def Let_def)

lemma report_in_unit: "in_unit (progress a) \<Longrightarrow> in_unit (report a)"
  by (simp add: report_def)

text \<open>
  C15: \<open>slow(k)\<close> with \<open>k > 1\<close> slows the animation down, as the spec says: the
  next frame after the call advances progress strictly less than it would have
  without it, whenever time has passed and the frame does not complete the animation.
\<close>

theorem slow_slows:
  assumes "\<not> paused a" "0 < duration a" "1 < k" "start a < now"
    and "progress a + real_of_int (now - start a) / duration a < 1"
  shows "progress (fst (animate_tick now (slow k a))) < progress (fst (animate_tick now a))"
proof -
  let ?e = "real_of_int (now - start a)"
  have e: "0 < ?e" using assms(4) by simp
  have "?e / (duration a * k) < ?e / duration a"
    using e assms(2,3) by (simp add: divide_strict_left_mono)
  then show ?thesis using assms(1,5) by (simp add: animate_tick_unpaused slow_def min_def)
qed

text \<open>
  C11: successive unpaused frames accumulate the elapsed wall time divided by the
  duration, clamped to 1: after frames at nondecreasing instants the progress is
  \<open>min 1 (p + (t_last - start) / duration)\<close>, whatever the frame rate.
\<close>

theorem tick_run_progress:
  assumes "\<not> paused a" "0 < duration a" "sorted (start a # ts)" "ts \<noteq> []"
  shows "progress (tick_run ts a) =
           min 1 (progress a + real_of_int (last ts - start a) / duration a)"
  using assms
proof (induction ts arbitrary: a)
  case Nil
  then show ?case by simp
next
  case (Cons t ts)
  let ?a1 = "fst (animate_tick t a)"
  let ?d = "duration a"
  have a1: "\<not> paused ?a1" "duration ?a1 = ?d" "start ?a1 = t"
    "progress ?a1 = min 1 (progress a + real_of_int (t - start a) / ?d)"
    using Cons.prems(1) by (simp_all add: animate_tick_unpaused)
  show ?case
  proof (cases "ts = []")
    case True
    with a1 show ?thesis by simp
  next
    case False
    have st: "start a \<le> t" "sorted (t # ts)" using Cons.prems(3) by simp_all
    have lt: "t \<le> last ts" using st(2) False by (simp add: last_in_set)
    have IH: "progress (tick_run ts ?a1) =
        min 1 (progress ?a1 + real_of_int (last ts - t) / ?d)"
      using Cons.IH [of ?a1] a1 st False Cons.prems(2) by simp
    have split: "real_of_int (last ts - start a) / ?d
        = real_of_int (t - start a) / ?d + real_of_int (last ts - t) / ?d"
      by (simp add: add_divide_distrib [symmetric])
    have nn: "0 \<le> real_of_int (last ts - t) / ?d" "0 \<le> real_of_int (t - start a) / ?d"
      using lt st(1) Cons.prems(2) by simp_all
    show ?thesis
      using IH a1(4) split nn False by (simp add: min_def)
  qed
qed

text \<open>
  C12: \<open>pause()\<close> does not read the clock and \<open>resume()\<close> re-anchors it, so the
  unpaused time between the last frame and the call of \<open>pause()\<close> is lost: after
  pausing, resuming at \<open>tr\<close> and a frame at \<open>tf\<close>, progress has grown by
  \<open>(tf - tr) / duration\<close> only, whenever \<open>pause()\<close> was called.
\<close>

theorem pause_drops_time:
  assumes "\<not> paused a"
  shows "progress (fst (animate_tick tf (resume tr (pause a)))) =
           min 1 (progress a + real_of_int (tf - tr) / duration a)"
  using assms by (simp add: anim_defs Let_def)

text \<open>
  C18: \<open>cancel()\<close> only stops the frame that is already queued from queueing
  another: if that frame completes the animation, it still reports \<open>Finished\<close>,
  so \<open>onFinish\<close> runs after the cancellation.
\<close>

theorem cancel_still_finishes:
  assumes "\<not> paused a" "1 \<le> progress a + real_of_int (now - start a) / duration a"
  shows "snd (animate_tick now (cancel a)) = Finished"
  using assms by (simp add: anim_defs Let_def)

subsection \<open>Reverse\<close>

text \<open>
  C13: \<open>reverse()\<close> mirrors the progress exactly when it flips the flag, so the
  reverse-adjusted progress an owner sees does not jump, with or without an argument.
\<close>

theorem reverse_report: "report (reverse arg a) = report a"
  by (simp add: anim_defs Let_def)

text \<open>
  C14: after \<open>reverse()\<close> the animation runs the other way from where it was: the
  next frame reports the progress reported before the call, moved by the elapsed
  time over the duration towards the other end.
\<close>

theorem reverse_runs_backwards:
  assumes "\<not> paused a" "real_of_int (now - start a) / duration a < progress a"
  shows "snd (animate_tick now (reverse None a)) =
    Updated (report a + (if reverseFlag a then 1 else -1) * (real_of_int (now - start a) / duration a))"
  using assms by (auto simp: anim_defs Let_def diff_divide_distrib)

subsection \<open>Run\<close>

text \<open>
  With hooks that satisfy \<open>hooks_ok\<close>, the \<open>animate()\<close> that \<open>run()\<close> calls
  synchronously sees no elapsed time and progress 0, so it reports \<open>Updated\<close>
  and never re-enters \<open>onFinish\<close>: two levels of fuel are enough.
\<close>

lemma run_with_Suc_Suc:
  fixes h :: "'s anim_hooks" and now :: ms and s :: 's and n :: nat
  assumes "hooks_ok h"
  defines "s2 \<equiv> onUpdate h (if reverseFlag (anim_of h s) then 1 else 0)
                 (set_anim h ((anim_of h s)\<lparr>start := now, paused := False,
                                             cancelled := False, progress := 0\<rparr>) s)"
  defines "a2 \<equiv> anim_of h s2"
  shows "run_with (Suc (Suc n)) h now s =
     Some (onUpdate h (report (a2\<lparr>queued := (if cancelled a2 then queued a2 else Suc (queued a2))\<rparr>))
             (set_anim h (a2\<lparr>queued := (if cancelled a2 then queued a2 else Suc (queued a2))\<rparr>) s2))"
proof -
  have lens: "\<And>a s. anim_of h (set_anim h a s) = a"
    and upd: "\<And>r s. start (anim_of h (onUpdate h r s)) = start (anim_of h s) \<and>
          progress (anim_of h (onUpdate h r s)) = progress (anim_of h s) \<and>
          paused (anim_of h (onUpdate h r s)) = paused (anim_of h s)"
    using assms(1) by (auto simp: hooks_ok_def Let_def)
  have a2: "start a2 = now" "progress a2 = 0" "\<not> paused a2"
    using upd lens unfolding a2_def s2_def by simp_all
  then have eq: "a2\<lparr>progress := 0, start := now\<rparr> = a2"
    by (intro anim.equality) simp_all
  from a2 have "animate_tick now a2 =
      (a2\<lparr>queued := (if cancelled a2 then queued a2 else Suc (queued a2))\<rparr>,
       Updated (report (a2\<lparr>queued := (if cancelled a2 then queued a2 else Suc (queued a2))\<rparr>)))"
    by (simp add: animate_tick_def eq Let_def)
  then show ?thesis
    by (simp add: Let_def a2_def s2_def)
qed

lemma proto_hooks_ok: "hooks_ok proto_hooks"
  by (simp add: hooks_ok_def proto_hooks_def proto_onUpdate_def cancel_def)

text \<open>
  C16: \<open>run()\<close> always returns, for every owner whose hooks satisfy
  \<open>hooks_ok\<close>: its nested \<open>animate()\<close> cannot finish and chain into another run.
\<close>

theorem run_with_returns:
  assumes "hooks_ok h"
  shows "\<exists>s'. run_with (Suc (Suc n)) h now s = Some s'"
  using run_with_Suc_Suc [OF assms] by blast

text \<open>
  C17: an animation whose \<open>onUpdate\<close> is not overridden cancels itself on its first
  run: the run returns with the animation cancelled, no frame queued beyond those
  already queued, and exactly two warnings printed (from \<open>onStart\<close> and from the
  first \<open>animate\<close>).
\<close>

theorem proto_run_self_cancels:
  "run_with (Suc (Suc n)) proto_hooks now (a, w) =
     Some (a\<lparr>start := now, paused := False, cancelled := True, progress := 0\<rparr>, Suc (Suc w))"
  unfolding run_with_Suc_Suc [OF proto_hooks_ok]
  by (simp add: proto_hooks_def proto_onUpdate_def cancel_def)

text \<open>
  C10: a paused animation keeps its frame loop alive without advancing: a display
  frame consumes the queued callback, which queues itself again and leaves the
  animation exactly as it was, whatever the time.
\<close>

theorem paused_frame_holds:
  assumes "hooks_ok h" "paused (anim_of h s)" "0 < queued (anim_of h s)"
  shows "\<exists>s'. frame_with (Suc n) h now s = Some s' \<and> anim_of h s' = anim_of h s"
proof -
  have lens: "\<And>a s. anim_of h (set_anim h a s) = a" using assms(1) by (simp add: hooks_ok_def)
  let ?a = "anim_of h s"
  have eq: "?a\<lparr>queued := queued ?a - 1, queued := Suc (queued ?a - 1)\<rparr> = ?a"
    using assms(3) by simp
  show ?thesis
    using assms(2,3) by (simp add: frame_with_def animate_tick_def lens eq Let_def)
qed

subsection \<open>Method calls and cycling\<close>

lemma tick_wf: "anim_wf a \<Longrightarrow> start a \<le> now \<Longrightarrow> anim_wf (fst (animate_tick now a))"
  by (auto simp: anim_wf_def animate_tick_def Let_def in_unit_def)

lemma call_wf: "anim_wf a \<Longrightarrow> call_typed m \<Longrightarrow> anim_wf (call_method m a)"
  by (cases m) (auto simp: call_method_def call_typed_def anim_wf_def anim_defs Let_def split: option.split)

lemma run_restarts:
  assumes "hooks_ok h" "run_with (Suc (Suc n)) h now s = Some s'"
  shows "progress (anim_of h s') = 0 \<and> start (anim_of h s') = now"
proof -
  have lens: "\<And>a s. anim_of h (set_anim h a s) = a"
    and upd: "\<And>r s. start (anim_of h (onUpdate h r s)) = start (anim_of h s) \<and>
          progress (anim_of h (onUpdate h r s)) = progress (anim_of h s)"
    using assms(1) by (auto simp: hooks_ok_def Let_def)
  show ?thesis
    using assms(2) unfolding run_with_Suc_Suc [OF assms(1)] by (clarsimp simp: lens upd)
qed

text \<open>
  C30: the driver is type-safe for its public interface: from a well-formed state,
  any sequence of method calls with well-typed arguments (a positive duration, a
  positive factor) and frames at instants no earlier than the clock's last reading
  leaves it well-formed, with a positive duration and progress in \<open>[0, 1]\<close>.
\<close>

theorem anim_ops_typed:
  assumes "anim_wf a" "ops_typed ops a"
  shows "anim_wf (anim_ops ops a)"
  using assms
proof (induction ops arbitrary: a)
  case Nil
  then show ?case by simp
next
  case (Cons op ops)
  then show ?case by (cases op) (auto intro: call_wf tick_wf)
qed

text \<open>
  C31: \<open>setDuration\<close> takes effect on the running animation at its next frame, and
  that frame divides all the time elapsed since the previous frame, including the
  time before the call, by the new duration.
\<close>

theorem setDuration_rescales_elapsed:
  assumes "\<not> paused a"
  shows "progress (fst (animate_tick now (setDuration d a))) =
           min 1 (progress a + real_of_int (now - start a) / d)"
  using assms by (simp add: animate_tick_unpaused setDuration_def)

text \<open>
  C32: a cycled animation restarts at the frame that completes it: after
  \<open>onFinish\<close>, \<open>run()\<close> resets progress to 0 and the clock to that instant,
  for every owner whose hooks satisfy \<open>hooks_ok\<close>.
\<close>

theorem cycle_restarts:
  assumes "hooks_ok h" "\<not> paused (anim_of h s)"
    and "1 \<le> progress (anim_of h s) + real_of_int (now - start (anim_of h s)) / duration (anim_of h s)"
    and "\<And>r. onFinish h r (set_anim h (fst (animate_tick now (anim_of h s))) s) = Some s'"
    and "cycled (anim_of h s')"
  shows "\<exists>s''. animate_with (Suc (Suc (Suc n))) h now s = Some s'' \<and>
           progress (anim_of h s'') = 0 \<and> start (anim_of h s'') = now"
proof -
  have fin: "snd (animate_tick now (anim_of h s)) = Finished"
    using assms(2,3) by (simp add: animate_tick_def Let_def)
  obtain s'' where run: "run_with (Suc (Suc n)) h now s' = Some s''"
    using run_with_Suc_Suc [OF assms(1)] by blast
  have "animate_with (Suc (Suc (Suc n))) h now s = Some s''"
    using fin assms(4,5) run
    by (cases "animate_tick now (anim_of h s)") (simp del: run_with.simps)
  then show ?thesis using run_restarts [OF assms(1) run] by blast
qed

subsection \<open>Witnesses\<close>

text \<open>
  The spec's timing scenario: an animation of 1000 ms, run at time 0, has progress
  0.4 after a frame at 400 ms; the other hypotheses are met by a fresh animation.
\<close>

theorem tick_run_progress_witness:
  "\<not> paused (new_Animation (Some 1000)) \<and> 0 < duration (new_Animation (Some 1000)) \<and>
   sorted (start (new_Animation (Some 1000)) # [400]) \<and> [400::int] \<noteq> [] \<and>
   progress (tick_run [400] (new_Animation (Some 1000))) = 2 / 5"
  using tick_run_progress [of "new_Animation (Some 1000)" "[400]"]
  by (simp add: new_Animation_def js_or_def)

theorem slow_slows_witness:
  "progress (fst (animate_tick 100 (slow 2 (new_Animation (Some 1000))))) <
   progress (fst (animate_tick 100 (new_Animation (Some 1000))))"
  using slow_slows [of "new_Animation (Some 1000)" 2 100]
  by (simp add: new_Animation_def js_or_def)

theorem reverse_runs_backwards_witness:
  "snd (animate_tick 100 (reverse None (new_Animation (Some 1000)\<lparr>progress := 1 / 2\<rparr>))) = Updated (2 / 5)"
  using reverse_runs_backwards [of "new_Animation (Some 1000)\<lparr>progress := 1 / 2\<rparr>" 100]
  by (simp add: new_Animation_def js_or_def report_def)

theorem paused_frame_holds_witness:
  "\<exists>s'. frame_with 1 proto_hooks 500 (pause (new_Animation None)\<lparr>queued := 1\<rparr>, 0) = Some s' \<and>
     fst s' = pause (new_Animation None)\<lparr>queued := 1\<rparr>"
  using paused_frame_holds [OF proto_hooks_ok, of "(pause (new_Animation None)\<lparr>queued := 1\<rparr>, 0)" 0 500]
  by (simp add: proto_hooks_def pause_def)

theorem pause_drops_time_witness:
  "\<not> paused (new_Animation (Some 1000)) \<and>
   progress (fst (animate_tick 700 (resume 600 (pause (new_Animation (Some 1000)))))) = 1 / 10"
  using pause_drops_time [of "new_Animation (Some 1000)" 700 600]
  by (simp add: new_Animation_def js_or_def)

theorem cancel_still_finishes_witness:
  "\<not> paused (new_Animation (Some 300)) \<and>
   1 \<le> progress (new_Animation (Some 300)) + real_of_int (300 - start (new_Animation (Some 300)))
          / duration (new_Animation (Some 300)) \<and>
   snd (animate_tick 300 (cancel (new_Animation (Some 300)))) = Finished"
  using cancel_still_finishes [of "new_Animation (Some 300)" 300]
  by (simp add: new_Animation_def js_or_def)

theorem run_with_returns_witness:
  "hooks_ok proto_hooks \<and> (\<exists>s'. run_with 2 proto_hooks 5 (new_Animation None, 0) = Some s')"
  using run_with_returns [OF proto_hooks_ok, of 0 5 "(new_Animation None, 0)"] proto_hooks_ok
  by (simp add: numeral_2_eq_2)

theorem anim_ops_typed_witness:
  "anim_wf (anim_ops [Call (Slow 2), FrameAt 100, Call Pause, Call (Resume 500), Call (Reverse None),
      FrameAt 600] (new_Animation (Some 1000)))"
  using anim_ops_typed [of "new_Animation (Some 1000)"
      "[Call (Slow 2), FrameAt 100, Call Pause, Call (Resume 500), Call (Reverse None), FrameAt 600]"]
  by (simp add: anim_wf_def new_Animation_def js_or_def call_method_def call_typed_def anim_defs
      Let_def in_unit_def)

theorem setDuration_rescales_elapsed_witness:
  "\<not> paused (new_Animation (Some 1000)) \<and>
   progress (fst (animate_tick 50 (setDuration 100 (new_Animation (Some 1000))))) = 1 / 2"
  using setDuration_rescales_elapsed [of "new_Animation (Some 1000)" 50 100]
  by (simp add: new_Animation_def js_or_def)

theorem cycle_restarts_witness:
  "\<exists>s''. animate_with 3 proto_hooks 100 (cycle (Some True) (new_Animation (Some 100)), 0) = Some s'' \<and>
     progress (fst s'') = 0 \<and> start (fst s'') = 100"
proof -
  have "\<exists>s''. animate_with (Suc (Suc (Suc 0))) proto_hooks 100 (cycle (Some True) (new_Animation (Some 100)), 0) = Some s'' \<and>
     progress (anim_of proto_hooks s'') = 0 \<and> start (anim_of proto_hooks s'') = 100"
    by (rule cycle_restarts [OF proto_hooks_ok])
      (simp add: proto_hooks_def proto_onFinish_def proto_onUpdate_def anim_defs new_Animation_def js_or_def Let_def)+
  then show ?thesis by (simp add: proto_hooks_def numeral_3_eq_3)
qed

end
