(* ===== verification/Slider.thy ===== *)
theory Slider
  imports Animation
begin

text \<open>
  The carousel of \<open>src/Scripts/Slider.js\<close>. \<open>createSliderFromHTMLElementArray\<close>
  builds a configuration (\<open>slider_cfg\<close>: the constants computed once from the items'
  sizes) and the mutable \<open>slider\<close> object, whose fields are those of the source's
  object literal plus the parts of the DOM the slider writes: the carousel offset,
  the two containers' children and positions, the items shown and the indicators
  marked selected. Items are referred to by their index in the truncated item array.
  The slider owns one \<open>Animation\<close> and overrides its hooks (\<open>slider_hooks\<close>);
  each browser event (an indicator or arrow click, a display frame) is one call of
  \<open>slider_event\<close>. The invariant \<open>slider_inv\<close> holds in every reachable state,
  and the abstract selection \<open>abs_selection\<close> is what the slider refines.
\<close>

section \<open>Data\<close>

definition MAX_CAROUSEL_LENGTH :: nat where
  "MAX_CAROUSEL_LENGTH = 10"

definition MIN_SLIDER_WIDTH :: real where
  "MIN_SLIDER_WIDTH = 200"

definition MIN_SLIDER_HEIGHT :: real where
  "MIN_SLIDER_HEIGHT = 100"

definition ANIMATION_DURATION :: real where
  "ANIMATION_DURATION = 300"

record element =
  offsetWidth :: int
  offsetHeight :: int

text \<open>
  An entry of the argument array: a rendered DOM element, \<open>null\<close>/\<open>undefined\<close>,
  or another value without a \<open>style\<close> property.
\<close>

datatype item = HtmlElement element | NullItem | OtherValue

record slider_cfg =
  len :: nat
  mainContainerWidth :: px
  mainContainerHeight :: px
  offsetsLeft :: "px list"
  offsetsTop :: "px list"

record slider =
  selectedSlide :: int
  isAnimated :: bool
  rightToLeftFlag :: bool
  slider_times :: int
  mainAnimation :: anim
  carouselLeft :: px
  nextSlideLeft :: "bool option"
  currentChild :: "int option"
  currentPos :: "px \<times> px"
  nextChild :: "int option"
  nextPos :: "px \<times> px"
  shownItems :: "int set"
  selectedIndicators :: "int set"

section \<open>Operations\<close>

text \<open>\<open>trunc(x) = (x + len) % len\<close>, with JavaScript's remainder.\<close>

definition trunc :: "slider_cfg \<Rightarrow> int \<Rightarrow> int" where
  "trunc c x = js_rem (x + int (len c)) (int (len c))"

definition rightToLeftMultiplier :: "slider \<Rightarrow> int" where
  [slider_defs]: "rightToLeftMultiplier s = (if rightToLeftFlag s then 1 else -1)"

definition getNextSlideIndex :: "slider_cfg \<Rightarrow> slider \<Rightarrow> int" where
  [slider_defs]: "getNextSlideIndex c s = trunc c (selectedSlide s + rightToLeftMultiplier s)"

definition fillContainerCurrent :: "slider_cfg \<Rightarrow> int \<Rightarrow> slider \<Rightarrow> slider" where
  [slider_defs]: "fillContainerCurrent c i s =
     s\<lparr>currentPos := (offsetsLeft c ! nat i, offsetsTop c ! nat i),
       shownItems := insert i (shownItems s),
       currentChild := Some i,
       nextChild := (if nextChild s = Some i then None else nextChild s)\<rparr>"

definition fillContainerNext :: "slider_cfg \<Rightarrow> int \<Rightarrow> slider \<Rightarrow> slider" where
  [slider_defs]: "fillContainerNext c i s =
     s\<lparr>nextPos := (offsetsLeft c ! nat i, offsetsTop c ! nat i),
       shownItems := insert i (shownItems s),
       nextSlideLeft := Some (rightToLeftFlag s),
       nextChild := Some i,
       currentChild := (if currentChild s = Some i then None else currentChild s)\<rparr>"

definition updateBottomIndicator :: "int \<Rightarrow> slider \<Rightarrow> slider" where
  [slider_defs]: "updateBottomIndicator i s =
     s\<lparr>selectedIndicators := insert i (selectedIndicators s - {selectedSlide s})\<rparr>"

definition launchAnimation :: "slider_cfg \<Rightarrow> (slider \<Rightarrow> slider option) \<Rightarrow> slider \<Rightarrow> slider option" where
  [slider_defs]: "launchAnimation c run s =
     (let i = getNextSlideIndex c s;
          s1 = fillContainerNext c i s
      in run (s1\<lparr>selectedSlide := i\<rparr>))"

definition slider_onUpdate :: "slider_cfg \<Rightarrow> real \<Rightarrow> slider \<Rightarrow> slider" where
  [slider_defs]: "slider_onUpdate c p s =
     s\<lparr>carouselLeft := - real_of_int (rightToLeftMultiplier s) * p * mainContainerWidth c\<rparr>"

definition slider_onFinish :: "slider_cfg \<Rightarrow> (slider \<Rightarrow> slider option) \<Rightarrow> slider \<Rightarrow> slider option" where
  [slider_defs]: "slider_onFinish c run s =
     (let s1 = fillContainerCurrent c (selectedSlide s) (s\<lparr>carouselLeft := 0\<rparr>);
          s2 = s1\<lparr>slider_times := slider_times s1 - 1\<rparr>
      in if 0 < slider_times s2 then launchAnimation c run s2
         else Some (s2\<lparr>isAnimated := False\<rparr>))"

definition slider_hooks :: "slider_cfg \<Rightarrow> slider anim_hooks" where
  [slider_defs]: "slider_hooks c =
     \<lparr>anim_of = mainAnimation, set_anim = (\<lambda>a s. s\<lparr>mainAnimation := a\<rparr>),
      onUpdate = slider_onUpdate c, onFinish = slider_onFinish c\<rparr>"

definition slideTo :: "nat \<Rightarrow> slider_cfg \<Rightarrow> ms \<Rightarrow> int \<Rightarrow> slider \<Rightarrow> slider option" where
  "slideTo n c now index s =
     (let s1 = s\<lparr>isAnimated := True\<rparr>;
          diff = index - selectedSlide s1;
          s2 = s1\<lparr>rightToLeftFlag := real_of_int (trunc c diff) \<le> real (len c) / 2\<rparr>;
          s3 = updateBottomIndicator index s2;
          numAnimations = min (trunc c diff) (trunc c (- diff));
          s4 = s3\<lparr>mainAnimation := setDuration (ANIMATION_DURATION / real_of_int numAnimations)
                                    (mainAnimation s3),
                  slider_times := numAnimations\<rparr>
      in launchAnimation c (run_with n (slider_hooks c) now) s4)"

definition onClickAction :: "nat \<Rightarrow> slider_cfg \<Rightarrow> ms \<Rightarrow> nat \<Rightarrow> int \<Rightarrow> slider \<Rightarrow> slider option" where
  "onClickAction n c now which index s =
     (if which \<noteq> 1 \<or> selectedSlide s = index \<or> isAnimated s then Some s
      else slideTo n c now index s)"

section \<open>Events and construction\<close>

text \<open>
  The click listeners: indicator \<open>j\<close> asks for slide \<open>j\<close>; the arrows compute
  their target from the selection at click time. \<open>Click w b\<close> carries
  \<open>event.which\<close>. \<open>Frame\<close> runs one queued \<open>animate\<close> callback.
\<close>

datatype button = Indicator nat | LeftScroller | RightScroller

datatype event = Click nat button | Frame

definition slider_event :: "nat \<Rightarrow> slider_cfg \<Rightarrow> ms \<Rightarrow> event \<Rightarrow> slider \<Rightarrow> slider option" where
  "slider_event n c now e s =
     (case e of
        Click w (Indicator j) \<Rightarrow> onClickAction n c now w (int j) s
      | Click w LeftScroller \<Rightarrow> onClickAction n c now w (trunc c (selectedSlide s - 1)) s
      | Click w RightScroller \<Rightarrow> onClickAction n c now w (trunc c (selectedSlide s + 1)) s
      | Frame \<Rightarrow> frame_with n (slider_hooks c) now s)"

text \<open>
  \<open>EmptyArray\<close>: the warning and early return. \<open>TypeError attached\<close>: an uncaught
  exception; \<open>attached\<close> tells whether the slider's DOM had already been appended to
  the mount point when it was thrown. The checks \<open>!x instanceof C\<close> parse as
  \<open>(!x) instanceof C\<close>, a boolean tested against a class, which is always false:
  they never return, so they have no branch here.
\<close>

datatype create_error = EmptyArray | TypeError bool

fun elements_of :: "item list \<Rightarrow> element list option" where
  "elements_of [] = Some []"
| "elements_of (HtmlElement e # xs) = map_option (Cons e) (elements_of xs)"
| "elements_of (_ # xs) = None"

definition slider_cfg_of :: "element list \<Rightarrow> slider_cfg" where
  "slider_cfg_of es =
     (let W = max MIN_SLIDER_WIDTH (js_max_apply (map (\<lambda>x. real_of_int (offsetWidth x)) es));
          H = max MIN_SLIDER_HEIGHT (js_max_apply (map (\<lambda>x. real_of_int (offsetHeight x)) es))
      in \<lparr>len = length es, mainContainerWidth = W, mainContainerHeight = H,
          offsetsLeft = map (\<lambda>x. (W - real_of_int (offsetWidth x)) / 2) es,
          offsetsTop = map (\<lambda>x. (H - real_of_int (offsetHeight x)) / 2) es\<rparr>)"

definition slider_init :: slider where
  "slider_init =
     \<lparr>selectedSlide = 0, isAnimated = False, rightToLeftFlag = True, slider_times = 0,
      mainAnimation = new_Animation (Some ANIMATION_DURATION), carouselLeft = 0,
      nextSlideLeft = None, currentChild = None, currentPos = (0, 0), nextChild = None,
      nextPos = (0, 0), shownItems = {}, selectedIndicators = {}\<rparr>"

definition createSliderFromHTMLElementArray ::
  "item list \<Rightarrow> bool \<Rightarrow> create_error + slider_cfg \<times> slider" where
  "createSliderFromHTMLElementArray xs mount_ok =
     (if length xs = 0 then Inl EmptyArray
      else
        let used = take MAX_CAROUSEL_LENGTH xs
        in if NullItem \<in> set used then Inl (TypeError False)
           else if \<not> mount_ok then Inl (TypeError False)
           else case elements_of used of
                  None \<Rightarrow> Inl (TypeError True)
                | Some es \<Rightarrow>
                    let c = slider_cfg_of es
                    in Inr (c, updateBottomIndicator 0 (fillContainerCurrent c 0 slider_init)))"

text \<open>
  Fuel for one event: a frame that finishes a step calls \<open>onFinish\<close>, which
  launches the next step, whose \<open>run()\<close> calls \<open>animate()\<close> once more.
\<close>

definition SLIDER_FUEL :: nat where
  "SLIDER_FUEL = 3"

text \<open>A sequence of timestamped events, as the browser delivers them.\<close>

fun run_events :: "slider_cfg \<Rightarrow> (ms \<times> event) list \<Rightarrow> slider \<Rightarrow> slider option" where
  "run_events c [] s = Some s"
| "run_events c ((t, e) # es) s =
     (case slider_event SLIDER_FUEL c t e s of None \<Rightarrow> None | Some s' \<Rightarrow> run_events c es s')"

section \<open>Invariant, abstraction and reachable states\<close>

definition cfg_ok :: "slider_cfg \<Rightarrow> bool" where
  "cfg_ok c \<longleftrightarrow> 0 < len c \<and> len c \<le> MAX_CAROUSEL_LENGTH \<and>
     length (offsetsLeft c) = len c \<and> length (offsetsTop c) = len c"

text \<open>The slide a running multi-step transition will end on.\<close>

definition slide_target :: "slider_cfg \<Rightarrow> slider \<Rightarrow> int" where
  "slide_target c s =
     (selectedSlide s + rightToLeftMultiplier s * (slider_times s - 1)) mod int (len c)"

definition slider_inv :: "slider_cfg \<Rightarrow> ms \<Rightarrow> slider \<Rightarrow> bool" where
  "slider_inv c t s \<longleftrightarrow>
     (let a = mainAnimation s; L = int (len c); sel = selectedSlide s
      in cfg_ok c \<and> 0 \<le> sel \<and> sel < L \<and> 0 < duration a \<and> in_unit (progress a) \<and>
         \<not> paused a \<and> \<not> cancelled a \<and> \<not> cycled a \<and> \<not> reverseFlag a \<and>
         (if isAnimated s then
            2 \<le> L \<and> 1 \<le> slider_times s \<and> queued a = 1 \<and> start a \<le> t \<and>
            nextChild s = Some sel \<and>
            currentChild s = Some ((sel - rightToLeftMultiplier s) mod L) \<and>
            selectedIndicators s = {slide_target c s}
          else
            slider_times s = 0 \<and> queued a = 0 \<and> currentChild s = Some sel \<and>
            nextChild s = None \<and> selectedIndicators s = {sel}))"

definition valid_event :: "slider_cfg \<Rightarrow> event \<Rightarrow> bool" where
  "valid_event c e = (case e of Click w (Indicator j) \<Rightarrow> j < len c | _ \<Rightarrow> True)"

inductive reachable :: "slider_cfg \<Rightarrow> ms \<Rightarrow> slider \<Rightarrow> bool" for c where
  created: "createSliderFromHTMLElementArray xs True = Inr (c, s) \<Longrightarrow> reachable c t s"
| step: "reachable c t s \<Longrightarrow> t \<le> now \<Longrightarrow> valid_event c e \<Longrightarrow>
         slider_event SLIDER_FUEL c now e s = Some s' \<Longrightarrow> reachable c now s'"

text \<open>
  The abstract slider is a register holding the selected slide: an accepted click
  sets it at once (the indicator shows it), frames never change it.
  \<open>click_target\<close> is the index an event asks for if \<open>onClickAction\<close> accepts it.
\<close>

definition abs_selection :: "slider_cfg \<Rightarrow> slider \<Rightarrow> int" where
  "abs_selection c s = (if isAnimated s then slide_target c s else selectedSlide s)"

definition click_index :: "slider_cfg \<Rightarrow> button \<Rightarrow> slider \<Rightarrow> int" where
  "click_index c b s =
     (case b of Indicator j \<Rightarrow> int j
      | LeftScroller \<Rightarrow> trunc c (selectedSlide s - 1)
      | RightScroller \<Rightarrow> trunc c (selectedSlide s + 1))"

definition click_target :: "slider_cfg \<Rightarrow> event \<Rightarrow> slider \<Rightarrow> int option" where
  "click_target c e s =
     (case e of
        Click w b \<Rightarrow>
          (let idx = click_index c b s
           in if w \<noteq> 1 \<or> selectedSlide s = idx \<or> isAnimated s then None else Some idx)
      | Frame \<Rightarrow> None)"

text \<open>Frames at least \<open>d\<close> milliseconds apart, the first \<open>d\<close> after \<open>t0\<close>.\<close>

fun spaced :: "real \<Rightarrow> ms \<Rightarrow> ms list \<Rightarrow> bool" where
  "spaced d t0 [] = True"
| "spaced d t0 (t # ts) = (d \<le> real_of_int (t - t0) \<and> spaced d t ts)"

section \<open>A concrete slider\<close>

definition demo_items :: "item list" where
  "demo_items = replicate 4 (HtmlElement \<lparr>offsetWidth = 100, offsetHeight = 50\<rparr>)"

definition demo_cfg :: slider_cfg where
  "demo_cfg = \<lparr>len = 4, mainContainerWidth = 200, mainContainerHeight = 100,
     offsetsLeft = [50, 50, 50, 50], offsetsTop = [25, 25, 25, 25]\<rparr>"

definition demo_slider :: slider where
  "demo_slider = \<lparr>selectedSlide = 0, isAnimated = False, rightToLeftFlag = True, slider_times = 0,
     mainAnimation = new_Animation (Some ANIMATION_DURATION), carouselLeft = 0, nextSlideLeft = None,
     currentChild = Some 0, currentPos = (50, 25), nextChild = None, nextPos = (0, 0),
     shownItems = {0}, selectedIndicators = {0}\<rparr>"

lemmas slider_eval = demo_items_def demo_cfg_def demo_slider_def createSliderFromHTMLElementArray_def slider_cfg_of_def slider_init_def
  MAX_CAROUSEL_LENGTH_def MIN_SLIDER_WIDTH_def MIN_SLIDER_HEIGHT_def ANIMATION_DURATION_def
  new_Animation_def js_or_def STANDARD_DURATION_def slider_defs anim_defs SLIDER_FUEL_def
  slider_event_def onClickAction_def slideTo_def frame_with_def trunc_def click_target_def
  click_index_def abs_selection_def slide_target_def Let_def eval_nat_numeral

section \<open>Properties\<close>

subsection \<open>Arithmetic and hooks\<close>


lemma trunc_mod:
  assumes "0 < len c" "- int (len c) \<le> x"
  shows "trunc c x = x mod int (len c)"
proof -
  have "trunc c x = (x + int (len c)) mod int (len c)"
    using assms by (simp add: trunc_def)
  then show ?thesis by simp
qed

lemma slider_hooks_ok: "hooks_ok (slider_hooks c)"
  by (simp add: hooks_ok_def slider_hooks_def slider_onUpdate_def)

lemma real_le_half_iff:
  "(real_of_int x \<le> real n / 2) \<longleftrightarrow> 2 * x \<le> int n"
  "(real_of_int x * 2 \<le> real n) \<longleftrightarrow> 2 * x \<le> int n"
  by linarith+

lemma mod_step_ne:
  fixes L sel m :: int
  assumes "2 \<le> L" "0 \<le> sel" "sel < L" "m = 1 \<or> m = -1"
  shows "(sel + m) mod L \<noteq> sel"
proof (cases "m = 1")
  case True
  show ?thesis
  proof (cases "sel + 1 < L")
    case True
    with \<open>m = 1\<close> assms show ?thesis by simp
  next
    case False
    with assms have "sel + 1 = L" by simp
    with \<open>m = 1\<close> assms show ?thesis by simp
  qed
next
  case False
  with assms(4) have m: "m = -1" by simp
  show ?thesis
  proof (cases "sel = 0")
    case True
    have "(-1) mod L = L - 1" using assms(1) by (simp add: zmod_zminus1_eq_if)
    with True m assms(1) show ?thesis by simp
  next
    case False
    with m assms show ?thesis by simp
  qed
qed

lemma mod_step_back:
  fixes L sel m :: int
  assumes "0 < L" "0 \<le> sel" "sel < L"
  shows "((sel + m) mod L - m) mod L = sel"
  using assms by (simp add: mod_diff_left_eq)

lemma slider_run:
  "run_with (Suc (Suc n)) (slider_hooks c) now s =
     Some (s\<lparr>mainAnimation := (mainAnimation s)\<lparr>start := now, paused := False,
                cancelled := False, progress := 0, queued := Suc (queued (mainAnimation s))\<rparr>,
             carouselLeft := - real_of_int (rightToLeftMultiplier s)
                 * (if reverseFlag (mainAnimation s) then 1 else 0) * mainContainerWidth c\<rparr>)"
  unfolding run_with_Suc_Suc [OF slider_hooks_ok]
  by (simp add: slider_hooks_def slider_onUpdate_def report_def rightToLeftMultiplier_def)

lemma launch_inv:
  fixes c s
  defines "L \<equiv> int (len c)" and "sel \<equiv> selectedSlide s" and "a \<equiv> mainAnimation s"
    and "m \<equiv> rightToLeftMultiplier s"
  assumes cfg: "cfg_ok c" "2 \<le> L" and sel: "0 \<le> sel" "sel < L"
    and st: "isAnimated s" "1 \<le> slider_times s" "currentChild s = Some sel" "nextChild s = None"
      "selectedIndicators s = {(sel + m * slider_times s) mod L}"
    and an: "0 < duration a" "\<not> cycled a" "\<not> reverseFlag a" "queued a = 0"
  shows "\<exists>s'. launchAnimation c (run_with (Suc (Suc n)) (slider_hooks c) now) s = Some s' \<and>
     slider_inv c now s' \<and> isAnimated s' \<and> selectedSlide s' = (sel + m) mod L \<and>
     slider_times s' = slider_times s \<and> rightToLeftFlag s' = rightToLeftFlag s \<and>
     duration (mainAnimation s') = duration a \<and> selectedIndicators s' = selectedIndicators s \<and>
     start (mainAnimation s') = now"
proof -
  have L0: "0 < len c" using cfg by (simp add: cfg_ok_def)
  have m: "m = 1 \<or> m = -1" by (simp add: m_def rightToLeftMultiplier_def)
  define i where "i = (sel + m) mod L"
  have gi: "getNextSlideIndex c s = i"
    using L0 sel m by (auto simp: getNextSlideIndex_def trunc_mod L_def sel_def m_def i_def)
  have ne: "i \<noteq> sel" unfolding i_def using mod_step_ne [OF cfg(2) sel m] .
  have sel_back: "(i - m) mod L = sel" unfolding i_def using mod_step_back cfg(2) sel by simp
  have tgt: "(i + m * (slider_times s - 1)) mod L = (sel + m * slider_times s) mod L"
  proof -
    have "(i + m * (slider_times s - 1)) mod L = (sel + m + m * (slider_times s - 1)) mod L"
      unfolding i_def by (rule mod_add_left_eq)
    also have "sel + m + m * (slider_times s - 1) = sel + m * slider_times s"
      by (simp add: algebra_simps)
    finally show ?thesis .
  qed
  have i_rng: "0 \<le> i" "i < L" using cfg(2) by (simp_all add: i_def)
  define s1 where "s1 = (fillContainerNext c i s)\<lparr>selectedSlide := i\<rparr>"
  define s' where "s' = s1\<lparr>mainAnimation := (mainAnimation s1)\<lparr>start := now, paused := False,
                cancelled := False, progress := 0, queued := Suc (queued (mainAnimation s1))\<rparr>,
             carouselLeft := - real_of_int (rightToLeftMultiplier s1)
                 * (if reverseFlag (mainAnimation s1) then 1 else 0) * mainContainerWidth c\<rparr>"
  have res: "launchAnimation c (run_with (Suc (Suc n)) (slider_hooks c) now) s = Some s'"
    by (simp add: launchAnimation_def slider_run gi s1_def s'_def Let_def del: run_with.simps)
  have f: "selectedSlide s' = i" "isAnimated s'" "slider_times s' = slider_times s"
    "rightToLeftFlag s' = rightToLeftFlag s" "rightToLeftMultiplier s' = m"
    "nextChild s' = Some i" "currentChild s' = Some sel"
    "selectedIndicators s' = selectedIndicators s"
    using st ne by (simp_all add: s'_def s1_def fillContainerNext_def rightToLeftMultiplier_def m_def)
  have fa: "duration (mainAnimation s') = duration a" "progress (mainAnimation s') = 0"
    "\<not> paused (mainAnimation s')" "\<not> cancelled (mainAnimation s')"
    "\<not> cycled (mainAnimation s')" "\<not> reverseFlag (mainAnimation s')"
    "queued (mainAnimation s') = 1" "start (mainAnimation s') = now"
    using an by (simp_all add: s'_def s1_def fillContainerNext_def a_def)
  have "slider_inv c now s'"
    unfolding slider_inv_def Let_def slide_target_def
    using f fa cfg i_rng sel_back tgt st(2,5) an(1)
    by (simp add: L_def)
  with res f fa show ?thesis by (auto simp: i_def)
qed

lemma slide_arith:
  fixes L sel idx :: int
  assumes "0 \<le> sel" "sel < L" "0 \<le> idx" "idx < L" "idx \<noteq> sel"
  defines "fwd \<equiv> (idx - sel) mod L"
  shows "1 \<le> fwd" "fwd < L" "(sel - idx) mod L = L - fwd"
    "(sel + (if 2 * fwd \<le> L then 1 else -1) * min fwd (L - fwd)) mod L = idx"
proof -
  have L0: "0 < L" using assms by simp
  have fwd_eq: "fwd = (if sel < idx then idx - sel else idx - sel + L)"
  proof (cases "sel < idx")
    case True
    then show ?thesis using assms by (simp add: fwd_def mod_pos_pos_trivial)
  next
    case False
    have "(idx - sel) mod L = (idx - sel + L) mod L" by simp
    also have "\<dots> = idx - sel + L"
      by (intro mod_pos_pos_trivial) (use False assms in auto)
    finally show ?thesis using False by (simp add: fwd_def)
  qed
  have nz: "fwd \<noteq> 0" and rng: "0 \<le> fwd" "fwd < L" using fwd_eq assms by auto
  then show "1 \<le> fwd" "fwd < L" by simp_all
  have "(sel - idx) mod L = (- (idx - sel)) mod L" by simp
  also have "\<dots> = L - fwd" using nz zmod_zminus1_eq_if [of "idx - sel" L] by (simp add: fwd_def)
  finally show "(sel - idx) mod L = L - fwd" .
  have fw: "(sel + fwd) mod L = idx"
  proof -
    have "(sel + fwd) mod L = (sel + (idx - sel)) mod L"
      unfolding fwd_def by (rule mod_add_right_eq)
    also have "\<dots> = idx" using assms by simp
    finally show ?thesis .
  qed
  show "(sel + (if 2 * fwd \<le> L then 1 else -1) * min fwd (L - fwd)) mod L = idx"
  proof (cases "2 * fwd \<le> L")
    case True
    then have "min fwd (L - fwd) = fwd" by simp
    with True fw show ?thesis by simp
  next
    case False
    then have "min fwd (L - fwd) = L - fwd" by simp
    moreover have "(sel + (fwd - L)) mod L = (sel + fwd) mod L"
    proof -
      have "sel + (fwd - L) = (sel + fwd) + (-1) * L" by simp
      then show ?thesis by (metis mod_mult_self1)
    qed
    ultimately show ?thesis using False fw by simp
  qed
qed

lemma click_accept:
  fixes c s idx
  defines "L \<equiv> int (len c)" and "sel \<equiv> selectedSlide s"
  defines "fwd \<equiv> (idx - sel) mod L"
  assumes inv: "slider_inv c t s" and idle: "\<not> isAnimated s"
    and idx: "0 \<le> idx" "idx < L" "idx \<noteq> sel"
  shows "\<exists>s'. onClickAction (Suc (Suc n)) c now 1 idx s = Some s' \<and> slider_inv c now s' \<and>
     isAnimated s' \<and> rightToLeftFlag s' = (2 * fwd \<le> L) \<and>
     slider_times s' = min fwd ((sel - idx) mod L) \<and>
     duration (mainAnimation s') * real_of_int (slider_times s') = ANIMATION_DURATION \<and>
     selectedIndicators s' = {idx}"
proof -
  have iv: "cfg_ok c" "0 \<le> sel" "sel < L" "0 < duration (mainAnimation s)"
    "\<not> cycled (mainAnimation s)" "\<not> reverseFlag (mainAnimation s)"
    "queued (mainAnimation s) = 0" "currentChild s = Some sel" "nextChild s = None"
    "selectedIndicators s = {sel}"
    using inv idle by (simp_all add: slider_inv_def Let_def L_def sel_def)
  note ar = slide_arith [OF iv(2,3) idx, folded fwd_def]
  have L2: "2 \<le> L" using ar(1,2) by simp
  have L0: "0 < len c" using L2 by (simp add: L_def)
  have tr: "trunc c (idx - sel) = fwd" "trunc c (- (idx - sel)) = L - fwd"
    using L0 iv(2,3) idx ar(3) by (simp_all add: trunc_mod L_def fwd_def)
  define rtl where "rtl = (2 * fwd \<le> L)"
  define num where "num = min fwd (L - fwd)"
  have num: "1 \<le> num" using ar(1,2) by (simp add: num_def)
  define s4 where "s4 = (updateBottomIndicator idx (s\<lparr>isAnimated := True, rightToLeftFlag := rtl\<rparr>))
      \<lparr>mainAnimation := setDuration (ANIMATION_DURATION / real_of_int num) (mainAnimation s),
       slider_times := num\<rparr>"
  have go: "onClickAction (Suc (Suc n)) c now 1 idx s =
      launchAnimation c (run_with (Suc (Suc n)) (slider_hooks c) now) s4"
    using idle idx(3) tr
    by (simp add: onClickAction_def slideTo_def s4_def rtl_def num_def Let_def sel_def
        real_le_half_iff L_def updateBottomIndicator_def del: run_with.simps)
  have m4: "rightToLeftMultiplier s4 = (if rtl then 1 else -1)"
    by (simp add: s4_def rightToLeftMultiplier_def updateBottomIndicator_def)
  have s4: "isAnimated s4" "slider_times s4 = num" "selectedSlide s4 = sel"
    "currentChild s4 = Some sel" "nextChild s4 = None" "selectedIndicators s4 = {idx}"
    "rightToLeftFlag s4 = rtl"
    using iv by (simp_all add: s4_def updateBottomIndicator_def sel_def)
  have a4: "0 < duration (mainAnimation s4)" "\<not> cycled (mainAnimation s4)"
    "\<not> reverseFlag (mainAnimation s4)" "queued (mainAnimation s4) = 0"
    "duration (mainAnimation s4) = ANIMATION_DURATION / real_of_int num"
    using iv num by (simp_all add: s4_def updateBottomIndicator_def setDuration_def ANIMATION_DURATION_def)
  have tg: "selectedIndicators s4 = {(selectedSlide s4 + rightToLeftMultiplier s4 * slider_times s4) mod L}"
    using ar(4) s4 m4 by (simp add: rtl_def num_def)
  have P: "0 \<le> selectedSlide s4" "selectedSlide s4 < L" "1 \<le> slider_times s4"
    "currentChild s4 = Some (selectedSlide s4)"
    using s4 iv num by simp_all
  obtain s' where s': "launchAnimation c (run_with (Suc (Suc n)) (slider_hooks c) now) s4 = Some s'"
    "slider_inv c now s'" "isAnimated s'" "slider_times s' = slider_times s4"
    "rightToLeftFlag s' = rightToLeftFlag s4"
    "duration (mainAnimation s') = duration (mainAnimation s4)"
    "selectedIndicators s' = selectedIndicators s4"
    using launch_inv [of c s4 n now, folded L_def, OF iv(1) L2 P(1,2) s4(1) P(3,4) s4(5) tg a4(1-4)]
    by blast
  have "duration (mainAnimation s') * real_of_int (slider_times s') = ANIMATION_DURATION"
    using s'(4,6) s4(2) a4(5) num by simp
  then show ?thesis
    using go s' s4 ar(3) by (auto simp: rtl_def num_def)
qed
(* "duration (mainAnimation s') * real_of_int (slider_times s') = ANIMATION_DURATION"
    using s'(3,5) s4(2) a4(5) num by simp
  ultimately show ?thesis
    using go s' s4 ar(3) by (auto simp: rtl_def num_def)
qed
*)
lemma slider_hooks_sel [simp]:
  "anim_of (slider_hooks c) = mainAnimation"
  "set_anim (slider_hooks c) a s = s\<lparr>mainAnimation := a\<rparr>"
  "onUpdate (slider_hooks c) = slider_onUpdate c"
  "onFinish (slider_hooks c) = slider_onFinish c"
  by (simp_all add: slider_hooks_def)

lemma slider_animate:
  "animate_with (Suc n) (slider_hooks c) now s =
     (case animate_tick now (mainAnimation s) of
        (a', Rescheduled) \<Rightarrow> Some (s\<lparr>mainAnimation := a'\<rparr>)
      | (a', Updated r) \<Rightarrow> Some (slider_onUpdate c r (s\<lparr>mainAnimation := a'\<rparr>))
      | (a', Finished) \<Rightarrow>
          (case slider_onFinish c (run_with n (slider_hooks c) now) (s\<lparr>mainAnimation := a'\<rparr>) of
             None \<Rightarrow> None
           | Some s' \<Rightarrow> if cycled (mainAnimation s') then run_with n (slider_hooks c) now s' else Some s'))"
  by (simp cong: option.case_cong)

lemma frame_update:
  fixes c s and now :: ms
  defines "a \<equiv> mainAnimation s"
  defines "p \<equiv> progress a + real_of_int (now - start a) / duration a"
  assumes inv: "slider_inv c t s" "t \<le> now" "isAnimated s" and lt: "p < 1"
  shows "\<exists>s'. frame_with (Suc n) (slider_hooks c) now s = Some s' \<and> slider_inv c now s' \<and>
     isAnimated s' \<and> selectedSlide s' = selectedSlide s \<and> slider_times s' = slider_times s \<and>
     rightToLeftFlag s' = rightToLeftFlag s \<and> selectedIndicators s' = selectedIndicators s \<and>
     mainAnimation s' = a\<lparr>progress := p, start := now\<rparr> \<and>
     carouselLeft s' = - real_of_int (rightToLeftMultiplier s) * p * mainContainerWidth c"
proof -
  have iv: "queued a = 1" "\<not> paused a" "\<not> cancelled a" "0 < duration a" "in_unit (progress a)"
    "start a \<le> t" "\<not> reverseFlag a"
    using inv by (simp_all add: slider_inv_def Let_def a_def)
  have p0: "0 \<le> p" using iv inv(2) by (simp add: p_def in_unit_def)
  define s' where "s' = slider_onUpdate c (report (a\<lparr>progress := p, start := now\<rparr>))
                           (s\<lparr>mainAnimation := a\<lparr>progress := p, start := now\<rparr>\<rparr>)"
  have tick: "animate_tick now (a\<lparr>queued := 0\<rparr>) =
      (a\<lparr>progress := p, start := now\<rparr>, Updated (report (a\<lparr>progress := p, start := now\<rparr>)))"
    using iv lt by (simp add: animate_tick_def Let_def p_def report_def)
  have res: "frame_with (Suc n) (slider_hooks c) now s = Some s'"
    using iv tick by (simp add: frame_with_def slider_animate s'_def a_def Let_def del: animate_with.simps)
  have "slider_inv c now s'"
    using inv iv p0 lt
    by (simp add: slider_inv_def Let_def s'_def slider_onUpdate_def slide_target_def
        rightToLeftMultiplier_def a_def in_unit_def)
  then show ?thesis using inv(3) res iv(7)
    by (simp add: s'_def slider_onUpdate_def report_def rightToLeftMultiplier_def)
qed

lemma frame_finish:
  fixes c s and now :: ms
  defines "a \<equiv> mainAnimation s" and "L \<equiv> int (len c)" and "sel \<equiv> selectedSlide s"
    and "m \<equiv> rightToLeftMultiplier s"
  assumes inv: "slider_inv c t s" "t \<le> now" "isAnimated s"
    and fin: "1 \<le> progress a + real_of_int (now - start a) / duration a"
  shows "\<exists>s'. frame_with (Suc (Suc (Suc n))) (slider_hooks c) now s = Some s' \<and>
     slider_inv c now s' \<and> selectedIndicators s' = selectedIndicators s \<and>
     (if 1 < slider_times s
      then isAnimated s' \<and> slider_times s' = slider_times s - 1 \<and>
           selectedSlide s' = (sel + m) mod L \<and> rightToLeftFlag s' = rightToLeftFlag s \<and>
           duration (mainAnimation s') = duration a \<and> start (mainAnimation s') = now
      else \<not> isAnimated s' \<and> selectedSlide s' = sel \<and> carouselLeft s' = 0)"
proof -
  have iv: "cfg_ok c" "2 \<le> L" "0 \<le> sel" "sel < L" "queued a = 1" "\<not> paused a"
    "0 < duration a" "\<not> cycled a" "\<not> reverseFlag a" "\<not> cancelled a"
    "1 \<le> slider_times s" "nextChild s = Some sel" "selectedIndicators s = {slide_target c s}"
    using inv by (simp_all add: slider_inv_def Let_def a_def L_def sel_def)
  define a1 where "a1 = a\<lparr>queued := 0, progress := 1, start := now\<rparr>"
  have tick: "animate_tick now (a\<lparr>queued := 0\<rparr>) = (a1, Finished)"
    using iv fin by (simp add: animate_tick_def a1_def)
  define s2 where "s2 = (fillContainerCurrent c sel (s\<lparr>mainAnimation := a1, carouselLeft := 0\<rparr>))
                          \<lparr>slider_times := slider_times s - 1\<rparr>"
  have fr: "frame_with (Suc (Suc (Suc n))) (slider_hooks c) now s =
      (case slider_onFinish c (run_with (Suc (Suc n)) (slider_hooks c) now) (s\<lparr>mainAnimation := a1\<rparr>) of
         None \<Rightarrow> None
       | Some s' \<Rightarrow> if cycled (mainAnimation s') then run_with (Suc (Suc n)) (slider_hooks c) now s'
                    else Some s')"
    using iv(5) tick by (simp add: frame_with_def slider_animate a_def Let_def del: animate_with.simps)
  have s2: "isAnimated s2" "selectedSlide s2 = sel" "currentChild s2 = Some sel" "nextChild s2 = None"
    "slider_times s2 = slider_times s - 1" "rightToLeftMultiplier s2 = m"
    "rightToLeftFlag s2 = rightToLeftFlag s" "selectedIndicators s2 = selectedIndicators s"
    "mainAnimation s2 = a1" "carouselLeft s2 = 0"
    using inv(3) iv(12) by (simp_all add: s2_def fillContainerCurrent_def rightToLeftMultiplier_def m_def sel_def)
  have of: "slider_onFinish c (run_with (Suc (Suc n)) (slider_hooks c) now) (s\<lparr>mainAnimation := a1\<rparr>) =
      (if 0 < slider_times s2 then launchAnimation c (run_with (Suc (Suc n)) (slider_hooks c) now) s2
       else Some (s2\<lparr>isAnimated := False\<rparr>))"
    by (simp add: slider_onFinish_def s2_def sel_def Let_def fillContainerCurrent_def del: run_with.simps)
  show ?thesis
  proof (cases "1 < slider_times s")
    case True
    have tg: "selectedIndicators s2 = {(selectedSlide s2 + rightToLeftMultiplier s2 * slider_times s2) mod L}"
      using s2 iv(13) by (simp add: slide_target_def L_def sel_def m_def)
    have a1: "0 < duration a1" "\<not> cycled a1" "\<not> reverseFlag a1" "queued a1 = 0"
      using iv by (simp_all add: a1_def)
    have P: "0 \<le> selectedSlide s2" "selectedSlide s2 < L" "1 \<le> slider_times s2"
      "currentChild s2 = Some (selectedSlide s2)"
      using s2 iv True by simp_all
    obtain s' where s': "launchAnimation c (run_with (Suc (Suc n)) (slider_hooks c) now) s2 = Some s'"
      "slider_inv c now s'" "isAnimated s'" "selectedSlide s' = (selectedSlide s2 + rightToLeftMultiplier s2) mod L"
      "slider_times s' = slider_times s2" "rightToLeftFlag s' = rightToLeftFlag s2"
      "duration (mainAnimation s') = duration (mainAnimation s2)"
      "selectedIndicators s' = selectedIndicators s2" "start (mainAnimation s') = now"
      using launch_inv [of c s2 n now, folded L_def, OF iv(1,2) P(1,2) s2(1) P(3,4) s2(4) tg]
        a1 s2(9) by auto
    have "\<not> cycled (mainAnimation s')" using s'(2) by (simp add: slider_inv_def Let_def)
    then have "frame_with (Suc (Suc (Suc n))) (slider_hooks c) now s = Some s'"
      using fr of s'(1) True s2(5) by simp
    then show ?thesis using True s' s2 by (simp add: a1_def)
  next
    case False
    then have t1: "slider_times s = 1" using iv(11) by simp
    define s' where "s' = s2\<lparr>isAnimated := False\<rparr>"
    have res: "frame_with (Suc (Suc (Suc n))) (slider_hooks c) now s = Some s'"
      using fr of t1 s2(5,9) iv(8) by (simp add: s'_def a1_def)
    have "slider_inv c now s'"
      using iv s2 t1 by (simp add: slider_inv_def Let_def s'_def a1_def slide_target_def L_def sel_def)
    then show ?thesis using res False s2 by (simp add: s'_def)
  qed
qed

lemma slider_inv_later: "slider_inv c t s \<Longrightarrow> t \<le> now \<Longrightarrow> slider_inv c now s"
  by (auto simp: slider_inv_def Let_def)

lemma frame_idle:
  "slider_inv c t s \<Longrightarrow> \<not> isAnimated s \<Longrightarrow> frame_with n (slider_hooks c) now s = Some s"
  by (simp add: slider_inv_def Let_def frame_with_def)

lemma click_inv:
  assumes "slider_inv c t s" "t \<le> now" "0 \<le> idx" "idx < int (len c)"
  shows "\<exists>s'. onClickAction (Suc (Suc n)) c now w idx s = Some s' \<and> slider_inv c now s' \<and>
     selectedIndicators s' =
       (if w \<noteq> 1 \<or> selectedSlide s = idx \<or> isAnimated s then selectedIndicators s else {idx})"
proof (cases "w \<noteq> 1 \<or> selectedSlide s = idx \<or> isAnimated s")
  case True
  then show ?thesis using assms slider_inv_later by (auto simp: onClickAction_def)
next
  case False
  then show ?thesis using click_accept [of c t s idx n now] assms by auto
qed

lemma frame_inv_ind:
  assumes "slider_inv c t s" "t \<le> now"
  shows "\<exists>s'. frame_with (Suc (Suc (Suc n))) (slider_hooks c) now s = Some s' \<and> slider_inv c now s' \<and>
     selectedIndicators s' = selectedIndicators s"
proof (cases "isAnimated s")
  case True
  show ?thesis
  proof (cases "1 \<le> progress (mainAnimation s) + real_of_int (now - start (mainAnimation s))
                       / duration (mainAnimation s)")
    case fin: True
    show ?thesis using frame_finish [OF assms True fin, of n] by blast
  next
    case False
    show ?thesis using frame_update [OF assms True, of "Suc (Suc n)"] False by auto
  qed
next
  case False
  then show ?thesis using assms frame_idle slider_inv_later by blast
qed

lemma slider_event_inv:
  assumes "slider_inv c t s" "t \<le> now" "valid_event c e"
  shows "\<exists>s'. slider_event SLIDER_FUEL c now e s = Some s' \<and> slider_inv c now s' \<and>
     selectedIndicators s' =
       (case click_target c e s of None \<Rightarrow> selectedIndicators s | Some i \<Rightarrow> {i})"
proof -
  have L0: "0 < len c" and sel: "0 \<le> selectedSlide s" "selectedSlide s < int (len c)"
    using assms(1) by (simp_all add: slider_inv_def Let_def cfg_ok_def)
  have fuel: "SLIDER_FUEL = Suc (Suc (Suc 0))" by (simp add: SLIDER_FUEL_def)
  show ?thesis
  proof (cases e)
    case (Click w b)
    have rng: "0 \<le> click_index c b s \<and> click_index c b s < int (len c)"
    proof (cases b)
      case (Indicator j)
      then show ?thesis using assms(3) Click by (simp add: valid_event_def click_index_def)
    next
      case LeftScroller
      then show ?thesis using trunc_mod [OF L0, of "selectedSlide s - 1"] sel L0
        by (simp add: click_index_def)
    next
      case RightScroller
      then show ?thesis using trunc_mod [OF L0, of "selectedSlide s + 1"] sel L0
        by (simp add: click_index_def)
    qed
    have ev: "slider_event SLIDER_FUEL c now e s = onClickAction (Suc (Suc (Suc 0))) c now w (click_index c b s) s"
      using Click by (cases b) (simp_all add: slider_event_def fuel click_index_def)
    show ?thesis
      using click_inv [OF assms(1,2), of "click_index c b s" "Suc 0" w] rng ev Click
      by (auto simp: click_target_def Let_def)
  next
    case Frame
    then show ?thesis using frame_inv_ind [OF assms(1,2)]
      by (simp add: slider_event_def fuel click_target_def)
  qed
qed

lemma elements_of_length: "elements_of xs = Some es \<Longrightarrow> length es = length xs"
  by (induction xs arbitrary: es rule: elements_of.induct) auto

lemma create_inv:
  assumes "createSliderFromHTMLElementArray xs True = Inr (c, s)"
  shows "slider_inv c t s"
proof -
  obtain es where es: "xs \<noteq> []" "elements_of (take MAX_CAROUSEL_LENGTH xs) = Some es"
    "c = slider_cfg_of es" "s = updateBottomIndicator 0 (fillContainerCurrent c 0 slider_init)"
    using assms by (auto simp: createSliderFromHTMLElementArray_def Let_def split: if_splits option.splits)
  have len: "length es = min MAX_CAROUSEL_LENGTH (length xs)" using elements_of_length [OF es(2)] by simp
  have "cfg_ok c" using len es(1,3) by (simp add: cfg_ok_def slider_cfg_of_def Let_def MAX_CAROUSEL_LENGTH_def)
  moreover have "0 < len c" using calculation by (simp add: cfg_ok_def)
  ultimately show ?thesis using es(4)
    by (simp add: slider_inv_def Let_def slider_init_def updateBottomIndicator_def fillContainerCurrent_def
        new_Animation_def js_or_def ANIMATION_DURATION_def)
qed

lemma reachable_inv: "reachable c t s \<Longrightarrow> slider_inv c t s"
proof (induction rule: reachable.induct)
  case (created xs s t)
  then show ?case by (rule create_inv)
next
  case (step t s now e s')
  then show ?case using slider_event_inv by fastforce
qed

lemma inv_indicators: "slider_inv c t s \<Longrightarrow> selectedIndicators s = {abs_selection c s}"
  by (simp add: slider_inv_def Let_def abs_selection_def split: if_splits)

lemma settle_aux:
  assumes "slider_inv c t s" "isAnimated s" "length ts = nat (slider_times s)" "sorted (t # ts)"
    "spaced (duration (mainAnimation s)) (start (mainAnimation s)) ts"
  shows "\<exists>s'. run_events c (map (\<lambda>t. (t, Frame)) ts) s = Some s' \<and> \<not> isAnimated s' \<and>
     slider_inv c (last (t # ts)) s' \<and> selectedIndicators s' = selectedIndicators s \<and>
     carouselLeft s' = 0"
  using assms
proof (induction ts arbitrary: s t)
  case Nil
  then have "1 \<le> slider_times s" by (simp add: slider_inv_def Let_def)
  with Nil.prems(3) show ?case by simp
next
  case (Cons t1 ts)
  let ?a = "mainAnimation s"
  have iv: "0 < duration ?a" "in_unit (progress ?a)" using Cons.prems(1)
    by (simp_all add: slider_inv_def Let_def)
  have tt: "t \<le> t1" "sorted (t1 # ts)" using Cons.prems(4) by simp_all
  have sp: "duration ?a \<le> real_of_int (t1 - start ?a)" "spaced (duration ?a) t1 ts"
    using Cons.prems(5) by simp_all
  have "1 \<le> real_of_int (t1 - start ?a) / duration ?a"
    using sp(1) iv(1) by simp
  then have fin: "1 \<le> progress ?a + real_of_int (t1 - start ?a) / duration ?a"
    using iv(2) by (simp add: in_unit_def)
  obtain s1 where s1: "frame_with (Suc (Suc (Suc 0))) (slider_hooks c) t1 s = Some s1"
    "slider_inv c t1 s1" "selectedIndicators s1 = selectedIndicators s"
    "if 1 < slider_times s
     then isAnimated s1 \<and> slider_times s1 = slider_times s - 1 \<and>
          selectedSlide s1 = (selectedSlide s + rightToLeftMultiplier s) mod int (len c) \<and>
          rightToLeftFlag s1 = rightToLeftFlag s \<and>
          duration (mainAnimation s1) = duration ?a \<and> start (mainAnimation s1) = t1
     else \<not> isAnimated s1 \<and> selectedSlide s1 = selectedSlide s \<and> carouselLeft s1 = 0"
    using frame_finish [OF Cons.prems(1) tt(1) Cons.prems(2) fin, of 0] by blast
  have ev: "run_events c (map (\<lambda>t. (t, Frame)) (t1 # ts)) s = run_events c (map (\<lambda>t. (t, Frame)) ts) s1"
    using s1(1) by (simp add: slider_event_def SLIDER_FUEL_def eval_nat_numeral)
  show ?case
  proof (cases "1 < slider_times s")
    case True
    with s1(4) have a1: "isAnimated s1" "slider_times s1 = slider_times s - 1"
      "duration (mainAnimation s1) = duration ?a" "start (mainAnimation s1) = t1" by simp_all
    have "length ts = nat (slider_times s1)" using Cons.prems(3) a1(2) True by simp
    then obtain s' where "run_events c (map (\<lambda>t. (t, Frame)) ts) s1 = Some s'" "\<not> isAnimated s'"
      "slider_inv c (last (t1 # ts)) s'" "selectedIndicators s' = selectedIndicators s1"
      "carouselLeft s' = 0"
      using Cons.IH [OF s1(2) a1(1) _ tt(2)] sp(2) a1(3,4) by auto
    then show ?thesis using ev s1(3) by simp
  next
    case False
    then have "slider_times s = 1" using Cons.prems(1,2) by (simp add: slider_inv_def Let_def)
    then have "ts = []" using Cons.prems(3) by simp
    with False s1 ev show ?thesis by simp
  qed
qed


subsection \<open>Construction\<close>

lemma elements_of_None: "elements_of xs = None \<longleftrightarrow> NullItem \<in> set xs \<or> OtherValue \<in> set xs"
  by (induction xs rule: elements_of.induct) auto

lemma elements_of_invalid [simp]:
  "NullItem \<in> set xs \<Longrightarrow> elements_of xs = None"
  "OtherValue \<in> set xs \<Longrightarrow> elements_of xs = None"
  by (simp_all add: elements_of_None)

lemma create_Inr:
  assumes "createSliderFromHTMLElementArray xs True = Inr (c, s)"
  obtains es where "xs \<noteq> []" "elements_of (take MAX_CAROUSEL_LENGTH xs) = Some es"
    "c = slider_cfg_of es" "s = updateBottomIndicator 0 (fillContainerCurrent c 0 slider_init)"
  using assms by (auto simp: createSliderFromHTMLElementArray_def Let_def split: if_splits option.splits)

text \<open>
  C20: the outcomes of construction: the empty array gives the warning; an uncaught
  \<open>TypeError\<close> after the slider was attached to the page happens exactly when the mount
  point is valid and a non-element value (other than \<open>null\<close>) is among the first ten
  items; construction succeeds exactly when the array is non-empty, the mount point
  valid and the first ten items are elements. The \<open>instanceof\<close> checks reject nothing.
\<close>

theorem create_errors:
  "(createSliderFromHTMLElementArray xs mount = Inl EmptyArray \<longleftrightarrow> xs = []) \<and>
   (createSliderFromHTMLElementArray xs mount = Inl (TypeError True) \<longleftrightarrow>
      xs \<noteq> [] \<and> mount \<and> NullItem \<notin> set (take MAX_CAROUSEL_LENGTH xs) \<and>
      OtherValue \<in> set (take MAX_CAROUSEL_LENGTH xs)) \<and>
   ((\<exists>r. createSliderFromHTMLElementArray xs mount = Inr r) \<longleftrightarrow>
      xs \<noteq> [] \<and> mount \<and> NullItem \<notin> set (take MAX_CAROUSEL_LENGTH xs) \<and>
      OtherValue \<notin> set (take MAX_CAROUSEL_LENGTH xs))"
  by (auto simp: createSliderFromHTMLElementArray_def Let_def elements_of_None
      split: option.splits if_splits)

text \<open>
  C21: only the first \<open>MAX_CAROUSEL_LENGTH\<close> items matter: construction on an array
  and on its first ten items gives the same result, even when later items are invalid.
\<close>

theorem create_truncates:
  "createSliderFromHTMLElementArray (take MAX_CAROUSEL_LENGTH xs) mount =
   createSliderFromHTMLElementArray xs mount"
  by (cases xs) (simp_all add: createSliderFromHTMLElementArray_def MAX_CAROUSEL_LENGTH_def)

text \<open>
  C22: a constructed slider has at most ten slides, a box at least the minimum size,
  non-negative centering offsets for every item, and starts idle on slide 0 with its
  indicator marked.
\<close>

theorem create_geometry:
  assumes "createSliderFromHTMLElementArray xs True = Inr (c, s)"
  shows "len c = min MAX_CAROUSEL_LENGTH (length xs) \<and>
     MIN_SLIDER_WIDTH \<le> mainContainerWidth c \<and> MIN_SLIDER_HEIGHT \<le> mainContainerHeight c \<and>
     list_all (\<lambda>x. 0 \<le> x) (offsetsLeft c) \<and> list_all (\<lambda>x. 0 \<le> x) (offsetsTop c) \<and>
     selectedSlide s = 0 \<and> currentChild s = Some 0 \<and> selectedIndicators s = {0} \<and> \<not> isAnimated s"
proof -
  obtain es where es: "xs \<noteq> []" "elements_of (take MAX_CAROUSEL_LENGTH xs) = Some es"
    "c = slider_cfg_of es" "s = updateBottomIndicator 0 (fillContainerCurrent c 0 slider_init)"
    using assms by (rule create_Inr)
  have len: "length es = min MAX_CAROUSEL_LENGTH (length xs)"
    using elements_of_length [OF es(2)] by simp
  have w: "\<forall>x \<in> set es. real_of_int (offsetWidth x) \<le> js_max_apply (map (\<lambda>x. real_of_int (offsetWidth x)) es)"
    and h: "\<forall>x \<in> set es. real_of_int (offsetHeight x) \<le> js_max_apply (map (\<lambda>x. real_of_int (offsetHeight x)) es)"
    by simp_all
  have "list_all (\<lambda>x. 0 \<le> x) (offsetsLeft c)" "list_all (\<lambda>x. 0 \<le> x) (offsetsTop c)"
    using w h es(3) by (auto simp: slider_cfg_of_def Let_def list_all_iff intro: max.coboundedI2)
  then show ?thesis using len es(3,4)
    by (simp add: slider_cfg_of_def Let_def slider_init_def updateBottomIndicator_def
        fillContainerCurrent_def)
qed

text \<open>
  C19: \<open>trunc\<close> agrees with the mathematical modulus on every argument the slider
  gives it (at least \<open>-len\<close>) and yields a valid index.
\<close>

theorem trunc_bounds:
  assumes "0 < len c" "- int (len c) \<le> x"
  shows "trunc c x = x mod int (len c) \<and> 0 \<le> trunc c x \<and> trunc c x < int (len c)"
  using trunc_mod [OF assms] assms(1) by simp

subsection \<open>Behaviour of reachable sliders\<close>

text \<open>
  C1: an accepted click (primary button, another slide, no transition running) on a
  reachable slider locks it and plans the transition as the spec says: the direction
  is forward exactly when the forward distance is at most half the slide count (a
  tie goes forward), the number of single steps is the smaller of the two circular
  distances, each step lasts \<open>300 / steps\<close> ms so the whole transition takes
  \<open>ANIMATION_DURATION\<close> whatever the distance, and the indicator marks the target at once.
\<close>

theorem click_plan:
  assumes "reachable c t s" "\<not> isAnimated s" "0 \<le> idx" "idx < int (len c)" "idx \<noteq> selectedSlide s"
  shows "\<exists>s'. onClickAction SLIDER_FUEL c now 1 idx s = Some s' \<and> isAnimated s' \<and>
     rightToLeftFlag s' = (2 * ((idx - selectedSlide s) mod int (len c)) \<le> int (len c)) \<and>
     slider_times s' = min ((idx - selectedSlide s) mod int (len c)) ((selectedSlide s - idx) mod int (len c)) \<and>
     duration (mainAnimation s') * real_of_int (slider_times s') = ANIMATION_DURATION \<and>
     selectedIndicators s' = {idx}"
proof -
  have "SLIDER_FUEL = Suc (Suc (Suc 0))" by (simp add: SLIDER_FUEL_def)
  then show ?thesis
    using click_accept [OF reachable_inv [OF assms(1)] assms(2-5), of "Suc 0" now] by auto
qed

text \<open>
  C2: the slider refines an abstract selection register: after any event of a
  reachable slider, the abstract selection is the index an accepted click asked for,
  or is unchanged (frames, rejected clicks).
\<close>

theorem refines_selection:
  assumes "reachable c t s" "t \<le> now" "valid_event c e"
    "slider_event SLIDER_FUEL c now e s = Some s'"
  shows "abs_selection c s' = (case click_target c e s of None \<Rightarrow> abs_selection c s | Some i \<Rightarrow> i)"
proof -
  have inv: "slider_inv c t s" using assms(1) by (rule reachable_inv)
  obtain s'' where s'': "slider_event SLIDER_FUEL c now e s = Some s''" "slider_inv c now s''"
    "selectedIndicators s'' = (case click_target c e s of None \<Rightarrow> selectedIndicators s | Some i \<Rightarrow> {i})"
    using slider_event_inv [OF inv assms(2,3)] by blast
  then have "s'' = s'" using assms(4) by simp
  then show ?thesis
    using s''(2,3) inv_indicators [OF s''(2)] inv_indicators [OF inv]
    by (auto split: option.splits)
qed

text \<open>
  C3: a running transition completes: if the next \<open>slider_times\<close> frames each come
  at least one step duration after the previous step started, the slider ends
  unlocked, showing the target slide in the current container, the other container
  empty and the carousel offset reset to 0.
\<close>

theorem frames_settle:
  assumes "reachable c t s" "isAnimated s" "length ts = nat (slider_times s)" "sorted (t # ts)"
    "spaced (duration (mainAnimation s)) (start (mainAnimation s)) ts"
  shows "\<exists>s'. run_events c (map (\<lambda>t. (t, Frame)) ts) s = Some s' \<and> \<not> isAnimated s' \<and>
     selectedSlide s' = abs_selection c s \<and> currentChild s' = Some (abs_selection c s) \<and>
     nextChild s' = None \<and> carouselLeft s' = 0"
proof -
  have inv: "slider_inv c t s" using assms(1) by (rule reachable_inv)
  obtain s' where s': "run_events c (map (\<lambda>t. (t, Frame)) ts) s = Some s'" "\<not> isAnimated s'"
    "slider_inv c (last (t # ts)) s'" "selectedIndicators s' = selectedIndicators s"
    "carouselLeft s' = 0"
    using settle_aux [OF inv assms(2-5)] by blast
  have "selectedIndicators s' = {selectedSlide s'}" "currentChild s' = Some (selectedSlide s')"
    "nextChild s' = None"
    using s'(2,3) by (simp_all add: slider_inv_def Let_def)
  then show ?thesis using s' inv_indicators [OF inv] by auto
qed

text \<open>
  C4: in every reachable state the lock is held exactly while steps remain, exactly
  one animation frame is queued while it is held and none otherwise (at most one
  animation run per slider), and the animation is never cancelled or paused and its
  progress stays in \<open>[0, 1]\<close>.
\<close>

theorem reachable_lock:
  assumes "reachable c t s"
  shows "(isAnimated s \<longleftrightarrow> 0 < slider_times s) \<and>
     queued (mainAnimation s) = (if isAnimated s then 1 else 0) \<and>
     \<not> cancelled (mainAnimation s) \<and> \<not> paused (mainAnimation s) \<and> in_unit (progress (mainAnimation s))"
  using reachable_inv [OF assms] by (auto simp: slider_inv_def Let_def split: if_splits)

text \<open>
  C5: in every reachable state the selection is a valid index, the current container
  holds an item, and the two containers never hold the same item; the next container
  is filled exactly while a transition runs.
\<close>

theorem reachable_containers_distinct:
  assumes "reachable c t s"
  shows "0 \<le> selectedSlide s \<and> selectedSlide s < int (len c) \<and> currentChild s \<noteq> None \<and>
     currentChild s \<noteq> nextChild s \<and> (nextChild s = None \<longleftrightarrow> \<not> isAnimated s)"
proof -
  have inv: "slider_inv c t s" using assms by (rule reachable_inv)
  show ?thesis
  proof (cases "isAnimated s")
    case True
    let ?L = "int (len c)" and ?sel = "selectedSlide s" and ?m = "rightToLeftMultiplier s"
    have f: "2 \<le> ?L" "0 \<le> ?sel" "?sel < ?L" "nextChild s = Some ?sel"
      "currentChild s = Some ((?sel - ?m) mod ?L)"
      using inv True by (simp_all add: slider_inv_def Let_def)
    have "- ?m = 1 \<or> - ?m = -1" by (simp add: rightToLeftMultiplier_def)
    then have "(?sel + - ?m) mod ?L \<noteq> ?sel" using mod_step_ne f(1-3) by blast
    then show ?thesis using f True by simp
  next
    case False
    then show ?thesis using inv by (simp add: slider_inv_def Let_def)
  qed
qed

text \<open>
  C6: every event handler of a reachable slider returns (fuel 3 is enough for the
  chain frame, \<open>onFinish\<close>, \<open>launchAnimation\<close>, \<open>run\<close>, \<open>animate\<close>), and its result is
  reachable again.
\<close>

theorem reachable_events_return:
  assumes "reachable c t s" "t \<le> now" "valid_event c e"
  shows "\<exists>s'. slider_event SLIDER_FUEL c now e s = Some s' \<and> reachable c now s'"
  using slider_event_inv [OF reachable_inv [OF assms(1)] assms(2,3)] reachable.step [OF assms] by blast

text \<open>
  C7: a click with a non-primary button, on the current slide's target, or while a
  transition runs leaves the whole slider state unchanged, whichever button it hits.
\<close>

theorem click_rejected:
  assumes "w \<noteq> 1 \<or> isAnimated s \<or> click_index c b s = selectedSlide s"
  shows "slider_event n c now (Click w b) s = Some s"
  using assms by (cases b) (auto simp: slider_event_def onClickAction_def click_index_def)

text \<open>
  C8: a frame that does not complete the step moves the carousel to
  \<open>-direction * progress * boxWidth\<close>, with the progress grown by the elapsed time
  over the step duration, and keeps the selection.
\<close>

theorem frame_update_offset:
  assumes "reachable c t s" "t \<le> now" "isAnimated s"
    "progress (mainAnimation s) + real_of_int (now - start (mainAnimation s)) / duration (mainAnimation s) < 1"
  shows "\<exists>s'. slider_event SLIDER_FUEL c now Frame s = Some s' \<and> isAnimated s' \<and>
     selectedSlide s' = selectedSlide s \<and>
     carouselLeft s' = - real_of_int (rightToLeftMultiplier s)
       * (progress (mainAnimation s) + real_of_int (now - start (mainAnimation s)) / duration (mainAnimation s))
       * mainContainerWidth c"
  using frame_update [OF reachable_inv [OF assms(1)] assms(2,3,4), of "Suc (Suc 0)"]
  by (auto simp: slider_event_def SLIDER_FUEL_def eval_nat_numeral)


subsection \<open>Witnesses on a concrete slider\<close>

text \<open>
  Four rendered items of 100 by 50 pixels, a click on the third indicator at time 0,
  and frames after it: each theorem with hypotheses applied where they hold.
\<close>

lemma demo_created: "createSliderFromHTMLElementArray demo_items True = Inr (demo_cfg, demo_slider)"
  by (simp add: slider_eval)

lemma demo_reachable: "reachable demo_cfg 0 demo_slider"
  using demo_created by (rule reachable.created)

lemma demo_clicked:
  obtains s1 where "slider_event SLIDER_FUEL demo_cfg 0 (Click 1 (Indicator 2)) demo_slider = Some s1"
    "reachable demo_cfg 0 s1" "isAnimated s1" "slider_times s1 = 2" "selectedSlide s1 = 1"
    "duration (mainAnimation s1) = 150" "start (mainAnimation s1) = 0" "progress (mainAnimation s1) = 0"
    "rightToLeftFlag s1" "selectedIndicators s1 = {2}"
proof -
  have v: "valid_event demo_cfg (Click 1 (Indicator 2))" by (simp add: valid_event_def demo_cfg_def)
  obtain s1 where s1: "slider_event SLIDER_FUEL demo_cfg 0 (Click 1 (Indicator 2)) demo_slider = Some s1"
    using slider_event_inv [OF reachable_inv [OF demo_reachable] order_refl v] by blast
  have r: "reachable demo_cfg 0 s1" using reachable.step [OF demo_reachable order_refl v s1] .
  have "isAnimated s1 \<and> slider_times s1 = 2 \<and> selectedSlide s1 = 1 \<and> duration (mainAnimation s1) = 150 \<and>
      start (mainAnimation s1) = 0 \<and> progress (mainAnimation s1) = 0 \<and> rightToLeftFlag s1 \<and>
      selectedIndicators s1 = {2}"
    using s1 by (clarsimp simp: slider_eval)
  then show ?thesis using that s1 r by blast
qed

theorem click_plan_witness:
  "\<exists>s'. reachable demo_cfg 0 demo_slider \<and> \<not> isAnimated demo_slider \<and> (0::int) \<le> 2 \<and>
     2 < int (len demo_cfg) \<and> 2 \<noteq> selectedSlide demo_slider \<and>
     onClickAction SLIDER_FUEL demo_cfg 0 1 2 demo_slider = Some s' \<and>
     rightToLeftFlag s' \<and> slider_times s' = 2 \<and> selectedIndicators s' = {2}"
proof -
  have f: "\<not> isAnimated demo_slider" "len demo_cfg = 4" "selectedSlide demo_slider = 0"
    by (simp_all add: slider_eval)
  show ?thesis
    using click_plan [OF demo_reachable f(1), of 2 0] demo_reachable f by auto
qed

theorem create_geometry_witness:
  "mainContainerWidth demo_cfg = 200 \<and> list_all (\<lambda>x. 0 \<le> x) (offsetsLeft demo_cfg) \<and>
   \<not> isAnimated demo_slider"
  using create_geometry [OF demo_created] by (simp add: demo_cfg_def)

theorem frames_settle_witness:
  "\<exists>s1 s'. reachable demo_cfg 0 s1 \<and> isAnimated s1 \<and> length [150, 300] = nat (slider_times s1) \<and>
     sorted [0, 150, 300 :: int] \<and> spaced (duration (mainAnimation s1)) (start (mainAnimation s1)) [150, 300] \<and>
     run_events demo_cfg [(150, Frame), (300, Frame)] s1 = Some s' \<and> \<not> isAnimated s' \<and>
     selectedSlide s' = 2 \<and> carouselLeft s' = 0"
proof -
  obtain s1 where s1: "reachable demo_cfg 0 s1" "isAnimated s1" "slider_times s1 = 2"
    "duration (mainAnimation s1) = 150" "start (mainAnimation s1) = 0" "selectedSlide s1 = 1"
    "rightToLeftFlag s1" "selectedIndicators s1 = {2}"
    using demo_clicked by metis
  have h: "length [150, 300 :: int] = nat (slider_times s1)" "sorted [0, 150, 300 :: int]"
    "spaced (duration (mainAnimation s1)) (start (mainAnimation s1)) [150, 300]"
    using s1 by simp_all
  have "abs_selection demo_cfg s1 = 2"
    using s1 by (simp add: abs_selection_def slide_target_def rightToLeftMultiplier_def demo_cfg_def)
  then show ?thesis
    using frames_settle [OF s1(1,2) h(1) h(2) h(3)] s1(1,2) h by auto
qed

theorem refines_selection_witness:
  "\<exists>s'. reachable demo_cfg 0 demo_slider \<and> (0::int) \<le> 0 \<and>
     valid_event demo_cfg (Click 1 (Indicator 2)) \<and>
     slider_event SLIDER_FUEL demo_cfg 0 (Click 1 (Indicator 2)) demo_slider = Some s' \<and>
     abs_selection demo_cfg s' = 2"
proof -
  obtain s1 where s1: "slider_event SLIDER_FUEL demo_cfg 0 (Click 1 (Indicator 2)) demo_slider = Some s1"
    using demo_clicked by metis
  have v: "valid_event demo_cfg (Click 1 (Indicator 2))" by (simp add: valid_event_def demo_cfg_def)
  have "click_target demo_cfg (Click 1 (Indicator 2)) demo_slider = Some 2"
    by (simp add: click_target_def click_index_def demo_slider_def)
  then show ?thesis
    using refines_selection [OF demo_reachable order_refl v s1] demo_reachable v s1 by auto
qed

theorem reachable_lock_witness:
  "\<exists>s1. reachable demo_cfg 0 s1 \<and> isAnimated s1 \<and> queued (mainAnimation s1) = 1"
proof -
  obtain s1 where s1: "reachable demo_cfg 0 s1" "isAnimated s1" using demo_clicked by metis
  then show ?thesis using reachable_lock [OF s1(1)] by auto
qed

theorem reachable_containers_distinct_witness:
  "\<exists>s1. reachable demo_cfg 0 s1 \<and> isAnimated s1 \<and> currentChild s1 \<noteq> nextChild s1"
proof -
  obtain s1 where s1: "reachable demo_cfg 0 s1" "isAnimated s1" using demo_clicked by metis
  then show ?thesis using reachable_containers_distinct [OF s1(1)] by auto
qed

theorem reachable_events_return_witness:
  "\<exists>s'. reachable demo_cfg 0 demo_slider \<and> (0::int) \<le> 0 \<and> valid_event demo_cfg Frame \<and>
     slider_event SLIDER_FUEL demo_cfg 0 Frame demo_slider = Some s' \<and> reachable demo_cfg 0 s'"
  using reachable_events_return [OF demo_reachable order_refl, of Frame] demo_reachable
  by (simp add: valid_event_def)

theorem click_rejected_witness:
  "slider_event SLIDER_FUEL demo_cfg 0 (Click 2 LeftScroller) demo_slider = Some demo_slider"
  using click_rejected [of 2 demo_slider demo_cfg LeftScroller SLIDER_FUEL 0] by simp

theorem frame_update_offset_witness:
  "\<exists>s1 s'. reachable demo_cfg 0 s1 \<and> (0::int) \<le> 75 \<and> isAnimated s1 \<and>
     progress (mainAnimation s1) + real_of_int (75 - start (mainAnimation s1)) / duration (mainAnimation s1) < 1 \<and>
     slider_event SLIDER_FUEL demo_cfg 75 Frame s1 = Some s' \<and> carouselLeft s' = -100"
proof -
  obtain s1 where s1: "reachable demo_cfg 0 s1" "isAnimated s1" "duration (mainAnimation s1) = 150"
    "start (mainAnimation s1) = 0" "progress (mainAnimation s1) = 0" "rightToLeftFlag s1"
    using demo_clicked by metis
  have lt: "progress (mainAnimation s1) + real_of_int (75 - start (mainAnimation s1)) / duration (mainAnimation s1) < 1"
    using s1 by simp
  show ?thesis
    using frame_update_offset [OF s1(1) _ s1(2) lt] s1 lt
    by (auto simp: rightToLeftMultiplier_def demo_cfg_def)
qed

theorem trunc_bounds_witness:
  "0 < len demo_cfg \<and> - int (len demo_cfg) \<le> -1 \<and> trunc demo_cfg (-1) = 3"
  using trunc_bounds [of demo_cfg "-1"] by (simp add: demo_cfg_def)


end
