(* ===== verification/Slider_DOM.thy ===== *)
theory Slider_DOM
  imports Slider "HOL-Library.AList"
begin

text \<open>
  The DOM that \<open>createSliderFromHTMLElementArray\<close> builds around the slider
  (\<open>src/Scripts/Slider.js\<close>, lines 55--67 and 146--187), and the page setup
  \<open>window.onload\<close> (lines 198--209). The document is an explicit store from node
  identities to nodes; \<open>createElement\<close>, \<open>classList.add\<close>, \<open>textContent\<close>,
  \<open>addEventListener\<close>, the style assignments and \<open>appendChild\<close> are functions on
  it, and the construction is their composition in the order of the source.
\<close>

section \<open>Document store\<close>

definition SLIDER_BUTTON_WIDTH :: real where
  "SLIDER_BUTTON_WIDTH = 50"

definition SLIDER_BOTTOM_BUTTONS_HEIGHT :: real where
  "SLIDER_BOTTOM_BUTTONS_HEIGHT = 30"

text \<open>
  The nodes: the twelve elements of lines 56--67, the list items of the indicator
  loop, the mount point \<open>HTMLElementInsertInto\<close>, and the other nodes the
  document already holds.
\<close>

datatype part =
  DivSlider | DivMainPanelContainer | DivLeftScroller | DivRightScroller | DivCenterContainer
  | DivSlideMiddle | DivSlideMiddleData | DivSlideRight | DivSlideRightData
  | SpanLeftButton | SpanRightButton | UlBottomButtons | LiBottomButton nat
  | Mount | Other nat

text \<open>
  A node: its tag, its class list, its children, the width and height the code writes
  into its style, its text, and the click listeners registered on it (each the
  button of \<open>slider_event\<close> that the listener's closure stands for).
\<close>

record node =
  tagName :: string
  classList :: "string list"
  childNodes :: "part list"
  styleWidth :: "px option"
  styleHeight :: "px option"
  textContent :: string
  clickListeners :: "button list"

type_synonym dom = "part \<Rightarrow> node option"

definition new_node :: "string \<Rightarrow> node" where
  "new_node tag =
     \<lparr>tagName = tag, classList = [], childNodes = [], styleWidth = None, styleHeight = None,
      textContent = [], clickListeners = []\<rparr>"

definition createElement :: "part \<Rightarrow> string \<Rightarrow> dom \<Rightarrow> dom" where
  "createElement p tag d = d(p \<mapsto> new_node tag)"

definition update_node :: "part \<Rightarrow> (node \<Rightarrow> node) \<Rightarrow> dom \<Rightarrow> dom" where
  "update_node p f d = (case d p of None \<Rightarrow> d | Some n \<Rightarrow> d(p \<mapsto> f n))"

text \<open>\<open>classList.add(c1, c2, ...)\<close> appends each token that is not yet present.\<close>

definition token_add :: "string list \<Rightarrow> string list \<Rightarrow> string list" where
  "token_add cs l = fold (\<lambda>c l. if c \<in> set l then l else l @ [c]) cs l"

definition classList_add :: "part \<Rightarrow> string list \<Rightarrow> dom \<Rightarrow> dom" where
  "classList_add p cs = update_node p (\<lambda>n. n\<lparr>classList := token_add cs (classList n)\<rparr>)"

text \<open>Setting \<open>textContent\<close> replaces the children by one text node.\<close>

definition set_textContent :: "part \<Rightarrow> string \<Rightarrow> dom \<Rightarrow> dom" where
  "set_textContent p t = update_node p (\<lambda>n. n\<lparr>textContent := t, childNodes := []\<rparr>)"

definition addEventListener :: "part \<Rightarrow> button \<Rightarrow> dom \<Rightarrow> dom" where
  "addEventListener p b = update_node p (\<lambda>n. n\<lparr>clickListeners := clickListeners n @ [b]\<rparr>)"

text \<open>
  A style length: \<open>x + "px"\<close> with \<open>x\<close> a number is stored; \<open>"NaNpx"\<close> (\<open>None\<close>)
  is not a length, and the browser ignores the assignment.
\<close>

definition set_styleWidth :: "part \<Rightarrow> px option \<Rightarrow> dom \<Rightarrow> dom" where
  "set_styleWidth p w =
     (case w of None \<Rightarrow> id | Some x \<Rightarrow> update_node p (\<lambda>n. n\<lparr>styleWidth := Some x\<rparr>))"

definition set_styleHeight :: "part \<Rightarrow> px option \<Rightarrow> dom \<Rightarrow> dom" where
  "set_styleHeight p h =
     (case h of None \<Rightarrow> id | Some x \<Rightarrow> update_node p (\<lambda>n. n\<lparr>styleHeight := Some x\<rparr>))"

text \<open>
  \<open>parent.appendChild(child)\<close> detaches \<open>child\<close> from wherever it is and appends it
  to \<open>parent\<close>'s children. (Appending a node under itself or its own descendant
  throws in the browser; the construction never does.)
\<close>

definition detach :: "part \<Rightarrow> dom \<Rightarrow> dom" where
  "detach c d = (\<lambda>q. map_option (\<lambda>n. n\<lparr>childNodes := removeAll c (childNodes n)\<rparr>) (d q))"

definition appendChild :: "part \<Rightarrow> part \<Rightarrow> dom \<Rightarrow> dom" where
  "appendChild p c d =
     (if d p = None \<or> d c = None then d
      else update_node p (\<lambda>n. n\<lparr>childNodes := childNodes n @ [c]\<rparr>) (detach c d))"

section \<open>Construction\<close>

text \<open>Lines 56--67: the elements and their tags, in the order they are created.\<close>

definition scaffold :: "(part \<times> string) list" where
  "scaffold =
     [(DivSlider, ''div''), (DivMainPanelContainer, ''div''), (DivLeftScroller, ''div''),
      (DivRightScroller, ''div''), (DivCenterContainer, ''div''), (DivSlideMiddle, ''div''),
      (DivSlideMiddleData, ''div''), (DivSlideRight, ''div''), (DivSlideRightData, ''div''),
      (SpanLeftButton, ''span''), (SpanRightButton, ''span''), (UlBottomButtons, ''ul'')]"

definition create_scaffold :: "dom \<Rightarrow> dom" where
  "create_scaffold d = fold (\<lambda>(p, tag). createElement p tag) scaffold d"

text \<open>
  The text of line 149, byte for byte as the file holds it: the UTF-8 encoding of a
  bullet encoded a second time (it displays as three characters).
\<close>

definition BULLET :: string where
  "BULLET = [CHR 0xC3, CHR 0xA2, CHR 0xE2, CHR 0x82, CHR 0xAC, CHR 0xC2, CHR 0xA2]"

text \<open>One iteration of the indicator loop (lines 147--153).\<close>

definition bottom_button :: "nat \<Rightarrow> dom \<Rightarrow> dom" where
  "bottom_button i d =
     (let li = LiBottomButton i;
          d1 = createElement li ''li'' d;
          d2 = classList_add li [''sliderBottomButton''] d1;
          d3 = set_textContent li BULLET d2;
          d4 = addEventListener li (Indicator i) d3
      in appendChild UlBottomButtons li d4)"

text \<open>The loop \<open>for (var i = 0; i < len; i++)\<close> of line 146.\<close>

function bottom_buttons_loop :: "nat \<Rightarrow> nat \<Rightarrow> dom \<Rightarrow> dom" where
  "bottom_buttons_loop n i d =
     (if i < n then bottom_buttons_loop n (Suc i) (bottom_button i d) else d)"
  by pat_completeness auto
termination by (relation "measure (\<lambda>(n, i, d). n - i)") auto

declare bottom_buttons_loop.simps [simp del]

text \<open>Lines 162--173 and 176--187.\<close>

definition class_names :: "(part \<times> string list) list" where
  "class_names =
     [(DivLeftScroller, [''sliderScroller'']), (DivRightScroller, [''sliderScroller'']),
      (DivSlideMiddle, [''slide'']), (DivSlideRight, [''slide'']),
      (DivSlideMiddleData, [''slideData'']), (DivSlideRightData, [''slideData'']),
      (DivCenterContainer, [''sliderCenterContainer'']),
      (DivMainPanelContainer, [''sliderMainPanelContainer'']),
      (SpanLeftButton, [''sliderScrollerButton'', ''buttonLeft'']),
      (SpanRightButton, [''sliderScrollerButton'', ''buttonRight'']),
      (UlBottomButtons, [''sliderBottomButtons'']), (DivSlider, [''slider''])]"

definition append_order :: "(part \<times> part) list" where
  "append_order =
     [(DivLeftScroller, SpanLeftButton), (DivRightScroller, SpanRightButton),
      (DivSlideMiddle, DivSlideMiddleData), (DivSlideRight, DivSlideRightData),
      (DivCenterContainer, DivSlideMiddle), (DivCenterContainer, DivSlideRight),
      (DivMainPanelContainer, DivLeftScroller), (DivMainPanelContainer, DivCenterContainer),
      (DivMainPanelContainer, DivRightScroller), (DivSlider, DivMainPanelContainer),
      (DivSlider, UlBottomButtons), (Mount, DivSlider)]"

text \<open>
  Lines 55--187 for \<open>n\<close> used items; \<open>sz\<close> is the central container's width
  and height, \<open>None\<close> when an item without \<open>offsetWidth\<close> made them \<open>NaN\<close>.
\<close>

definition buildSliderDOM :: "nat \<Rightarrow> (px \<times> px) option \<Rightarrow> dom \<Rightarrow> dom" where
  "buildSliderDOM n sz d =
     (let d1 = create_scaffold d;
          d2 = bottom_buttons_loop n 0 d1;
          d3 = addEventListener DivLeftScroller LeftScroller d2;
          d4 = addEventListener DivRightScroller RightScroller d3;
          d5 = set_styleWidth DivSlider (map_option (\<lambda>(w, h). w + 2 * SLIDER_BUTTON_WIDTH) sz) d4;
          d6 = set_styleHeight DivSlider (map_option (\<lambda>(w, h). h + SLIDER_BOTTOM_BUTTONS_HEIGHT) sz) d5;
          d7 = fold (\<lambda>(p, cs). classList_add p cs) class_names d6
      in fold (\<lambda>(p, c). appendChild p c) append_order d7)"

text \<open>
  The construction with its exceptions (lines 13--196). The result is the one of
  \<open>createSliderFromHTMLElementArray\<close>, whose mount flag is whether the mount point
  is a node of the document. The DOM is built unless the function returned at
  line 17 or threw at line 48 on a \<open>null\<close> item. A failed \<open>appendChild\<close> on a missing
  mount point (line 187) leaves the scaffold detached. An item that is not an element
  makes the sizes \<open>NaN\<close> and throws at line 190, after the slider was attached.
  The items' own nodes are not in this store. The slider model follows them
  (\<open>shownItems\<close>, \<open>currentChild\<close>): they are hidden at line 190, and the first
  is moved into the current container at line 193.
\<close>

definition cfg_size :: "element list \<Rightarrow> px \<times> px" where
  "cfg_size es = (mainContainerWidth (slider_cfg_of es), mainContainerHeight (slider_cfg_of es))"

definition createSliderDOM :: "item list \<Rightarrow> dom \<Rightarrow> (create_error + slider_cfg \<times> slider) \<times> dom" where
  "createSliderDOM xs d =
     (let r = createSliderFromHTMLElementArray xs (d Mount \<noteq> None);
          used = take MAX_CAROUSEL_LENGTH xs
      in if length xs = 0 \<or> NullItem \<in> set used then (r, d)
         else (r, buildSliderDOM (length used) (map_option cfg_size (elements_of used)) d))"

section \<open>Page setup\<close>

text \<open>
  \<open>window.onload\<close> (lines 202--209) builds three sliders in \<open>document.body\<close>,
  an element: from an empty array, from eleven elements looked up by id, and from one.
  \<open>$(id)\<close> is \<open>document.getElementById\<close>, \<open>null\<close> for a missing id. An exception
  thrown by one construction ends the handler, and the constructions after it do not
  run. The result is the list of the constructions that ran.
\<close>

definition ids1 :: "string list" where
  "ids1 = [''img0'', ''img1'', ''p2'', ''ul3'', ''img4'', ''img5'', ''img6'', ''img7'', ''img8'',
           ''div9'', ''eleventh'']"

definition ids2 :: "string list" where
  "ids2 = [''loneImage'']"

definition getElementById :: "(string \<Rightarrow> element option) \<Rightarrow> string \<Rightarrow> item" where
  "getElementById doc i = (case doc i of Some e \<Rightarrow> HtmlElement e | None \<Rightarrow> NullItem)"

definition throws :: "create_error + slider_cfg \<times> slider \<Rightarrow> bool" where
  "throws r = (case r of Inl (TypeError _) \<Rightarrow> True | _ \<Rightarrow> False)"

definition window_onload :: "(string \<Rightarrow> element option) \<Rightarrow> (create_error + slider_cfg \<times> slider) list" where
  "window_onload doc =
     (let slider1 = createSliderFromHTMLElementArray [] True;
          slider3 = createSliderFromHTMLElementArray (map (getElementById doc) ids1) True
      in if throws slider3 then [slider1, slider3]
         else [slider1, slider3, createSliderFromHTMLElementArray (map (getElementById doc) ids2) True])"

section \<open>Predicates\<close>

text \<open>
  A well-formed store: every child is a node of the store and not its own parent,
  no node lists a child twice, and no node has two parents.
\<close>

definition dom_wf :: "dom \<Rightarrow> bool" where
  "dom_wf d \<longleftrightarrow>
     (\<forall>p n. d p = Some n \<longrightarrow> distinct (childNodes n) \<and>
        (\<forall>c \<in> set (childNodes n). d c \<noteq> None \<and> c \<noteq> p)) \<and>
     (\<forall>p q np nq c. d p = Some np \<longrightarrow> d q = Some nq \<longrightarrow>
        c \<in> set (childNodes np) \<longrightarrow> c \<in> set (childNodes nq) \<longrightarrow> p = q)"

text \<open>The nodes of the page before the slider is built.\<close>

definition in_document :: "part \<Rightarrow> bool" where
  "in_document p = (case p of Mount \<Rightarrow> True | Other _ \<Rightarrow> True | _ \<Rightarrow> False)"

definition li_node :: "nat \<Rightarrow> node" where
  "li_node j = (new_node ''li'')\<lparr>classList := [''sliderBottomButton''], textContent := BULLET,
                                 clickListeners := [Indicator j]\<rparr>"

text \<open>
  The tree the construction is meant to build, described node by node: the
  reference the step-by-step construction is compared with.
\<close>

definition slider_dom :: "nat \<Rightarrow> (px \<times> px) option \<Rightarrow> dom \<Rightarrow> dom" where
  "slider_dom n sz d q =
     (case q of
        DivSlider \<Rightarrow> Some ((new_node ''div'')\<lparr>classList := [''slider''],
          childNodes := [DivMainPanelContainer, UlBottomButtons],
          styleWidth := map_option (\<lambda>(w, h). w + 2 * SLIDER_BUTTON_WIDTH) sz,
          styleHeight := map_option (\<lambda>(w, h). h + SLIDER_BOTTOM_BUTTONS_HEIGHT) sz\<rparr>)
      | DivMainPanelContainer \<Rightarrow> Some ((new_node ''div'')\<lparr>classList := [''sliderMainPanelContainer''],
          childNodes := [DivLeftScroller, DivCenterContainer, DivRightScroller]\<rparr>)
      | DivLeftScroller \<Rightarrow> Some ((new_node ''div'')\<lparr>classList := [''sliderScroller''],
          childNodes := [SpanLeftButton], clickListeners := [LeftScroller]\<rparr>)
      | DivRightScroller \<Rightarrow> Some ((new_node ''div'')\<lparr>classList := [''sliderScroller''],
          childNodes := [SpanRightButton], clickListeners := [RightScroller]\<rparr>)
      | DivCenterContainer \<Rightarrow> Some ((new_node ''div'')\<lparr>classList := [''sliderCenterContainer''],
          childNodes := [DivSlideMiddle, DivSlideRight]\<rparr>)
      | DivSlideMiddle \<Rightarrow> Some ((new_node ''div'')\<lparr>classList := [''slide''],
          childNodes := [DivSlideMiddleData]\<rparr>)
      | DivSlideMiddleData \<Rightarrow> Some ((new_node ''div'')\<lparr>classList := [''slideData'']\<rparr>)
      | DivSlideRight \<Rightarrow> Some ((new_node ''div'')\<lparr>classList := [''slide''],
          childNodes := [DivSlideRightData]\<rparr>)
      | DivSlideRightData \<Rightarrow> Some ((new_node ''div'')\<lparr>classList := [''slideData'']\<rparr>)
      | SpanLeftButton \<Rightarrow> Some ((new_node ''span'')\<lparr>classList := [''sliderScrollerButton'', ''buttonLeft'']\<rparr>)
      | SpanRightButton \<Rightarrow> Some ((new_node ''span'')\<lparr>classList := [''sliderScrollerButton'', ''buttonRight'']\<rparr>)
      | UlBottomButtons \<Rightarrow> Some ((new_node ''ul'')\<lparr>classList := [''sliderBottomButtons''],
          childNodes := map LiBottomButton [0..<n]\<rparr>)
      | LiBottomButton j \<Rightarrow> if j < n then Some (li_node j) else None
      | Mount \<Rightarrow> map_option (\<lambda>m. m\<lparr>childNodes := childNodes m @ [DivSlider]\<rparr>) (d Mount)
      | Other k \<Rightarrow> d (Other k))"


definition li_layer :: "nat \<Rightarrow> dom \<Rightarrow> dom" where
  "li_layer n d q = (case q of LiBottomButton j \<Rightarrow> if j < n then Some (li_node j) else d q | _ \<Rightarrow> d q)"

definition overlay :: "dom \<Rightarrow> (part \<times> node) list \<Rightarrow> dom" where
  "overlay B al q = (case map_of al q of Some n \<Rightarrow> Some n | None \<Rightarrow> B q)"

definition scaffold_nodes :: "nat \<Rightarrow> (part \<times> node) list" where
  "scaffold_nodes n =
     [(UlBottomButtons, (new_node ''ul'')\<lparr>childNodes := map LiBottomButton [0..<n]\<rparr>),
      (SpanRightButton, new_node ''span''), (SpanLeftButton, new_node ''span''),
      (DivSlideRightData, new_node ''div''), (DivSlideRight, new_node ''div''),
      (DivSlideMiddleData, new_node ''div''), (DivSlideMiddle, new_node ''div''),
      (DivCenterContainer, new_node ''div''), (DivRightScroller, new_node ''div''),
      (DivLeftScroller, new_node ''div''), (DivMainPanelContainer, new_node ''div''),
      (DivSlider, new_node ''div'')]"

text \<open>An empty page: the mount point \<open>document.body\<close> and nothing else.\<close>

definition demo_doc :: dom where
  "demo_doc = [Mount \<mapsto> new_node ''body'']"

section \<open>Lemmas on the construction\<close>

lemma appendChild_Some:
  "d p = Some np \<Longrightarrow> d c = Some nc \<Longrightarrow>
   appendChild p c d = (detach c d)(p \<mapsto> np\<lparr>childNodes := removeAll c (childNodes np) @ [c]\<rparr>)"
  by (simp add: appendChild_def update_node_def detach_def)

lemma detach_apply: "detach c d q = map_option (\<lambda>n. n\<lparr>childNodes := removeAll c (childNodes n)\<rparr>) (d q)"
  by (simp add: detach_def)

lemma bottom_button_apply:
  assumes "d UlBottomButtons = Some u" "d (LiBottomButton i) = None"
    and "\<And>p n. d p = Some n \<Longrightarrow> LiBottomButton i \<notin> set (childNodes n)"
  shows "bottom_button i d q =
    (if q = UlBottomButtons then Some (u\<lparr>childNodes := childNodes u @ [LiBottomButton i]\<rparr>)
     else if q = LiBottomButton i then Some (li_node i) else d q)"
proof -
  let ?li = "LiBottomButton i"
  define d4 where "d4 = addEventListener ?li (Indicator i)
      (set_textContent ?li BULLET (classList_add ?li [''sliderBottomButton''] (createElement ?li ''li'' d)))"
  have d4: "d4 = d(?li \<mapsto> li_node i)"
    by (simp add: d4_def createElement_def classList_add_def set_textContent_def addEventListener_def
        update_node_def li_node_def new_node_def token_add_def)
  have "bottom_button i d = appendChild UlBottomButtons ?li d4"
    by (simp add: bottom_button_def d4_def Let_def)
  also have "\<dots> = (detach ?li d4)(UlBottomButtons \<mapsto> u\<lparr>childNodes := removeAll ?li (childNodes u) @ [?li]\<rparr>)"
    using assms(1) by (simp add: d4 appendChild_Some)
  finally have bb: "bottom_button i d = (detach ?li d4)(UlBottomButtons \<mapsto> u\<lparr>childNodes := removeAll ?li (childNodes u) @ [?li]\<rparr>)" .
  moreover have "?li \<notin> set (childNodes u)" using assms(1,3) by blast
  ultimately show ?thesis
    using assms(3)
    by (auto simp: d4 detach_apply li_node_def new_node_def intro!: option.map_ident_strong)
qed

lemma bottom_buttons_loop_apply:
  assumes "d UlBottomButtons = Some u" "\<And>j. i \<le> j \<Longrightarrow> d (LiBottomButton j) = None"
    and "\<And>p n j. d p = Some n \<Longrightarrow> i \<le> j \<Longrightarrow> LiBottomButton j \<notin> set (childNodes n)"
  shows "bottom_buttons_loop n i d q =
    (if q = UlBottomButtons then Some (u\<lparr>childNodes := childNodes u @ map LiBottomButton [i..<n]\<rparr>)
     else case q of LiBottomButton j \<Rightarrow> if i \<le> j \<and> j < n then Some (li_node j) else d q
          | _ \<Rightarrow> d q)"
  using assms
proof (induction n i d arbitrary: u rule: bottom_buttons_loop.induct)
  case (1 n i d)
  show ?case
  proof (cases "i < n")
    case False
    then show ?thesis using 1(2) by (auto simp: bottom_buttons_loop.simps split: part.split)
  next
    case True
    let ?d' = "bottom_button i d"
    let ?u' = "u\<lparr>childNodes := childNodes u @ [LiBottomButton i]\<rparr>"
    have bb: "\<And>q. ?d' q = (if q = UlBottomButtons then Some ?u'
        else if q = LiBottomButton i then Some (li_node i) else d q)"
      using bottom_button_apply [of d u i] 1(2-4) by blast
    have u': "?d' UlBottomButtons = Some ?u'" by (simp add: bb)
    have fresh: "\<And>j. Suc i \<le> j \<Longrightarrow> ?d' (LiBottomButton j) = None"
      using 1(3) by (simp add: bb)
    have nochild: "\<And>p m j. ?d' p = Some m \<Longrightarrow> Suc i \<le> j \<Longrightarrow> LiBottomButton j \<notin> set (childNodes m)"
    proof -
      fix p m j assume m: "?d' p = Some m" and j: "Suc i \<le> j"
      show "LiBottomButton j \<notin> set (childNodes m)"
      proof (cases "p = UlBottomButtons")
        case True
        then show ?thesis using m j 1(4)[OF 1(2), of j] by (auto simp: bb)
      next
        case False
        then show ?thesis using m j 1(4)[of p m j]
          by (auto simp: bb li_node_def new_node_def split: if_splits)
      qed
    qed
    have IH: "bottom_buttons_loop n (Suc i) ?d' q =
      (if q = UlBottomButtons then Some (?u'\<lparr>childNodes := childNodes ?u' @ map LiBottomButton [Suc i..<n]\<rparr>)
       else case q of LiBottomButton j \<Rightarrow> if Suc i \<le> j \<and> j < n then Some (li_node j) else ?d' q
          | _ \<Rightarrow> ?d' q)"
      using 1(1)[OF True u'] fresh nochild by blast
    have "bottom_buttons_loop n i d q = bottom_buttons_loop n (Suc i) ?d' q"
      using True by (simp add: bottom_buttons_loop.simps)
    also have "\<dots> = (if q = UlBottomButtons then Some (u\<lparr>childNodes := childNodes u @ map LiBottomButton [i..<n]\<rparr>)
     else case q of LiBottomButton j \<Rightarrow> if i \<le> j \<and> j < n then Some (li_node j) else d q
          | _ \<Rightarrow> d q)"
      using True unfolding IH by (auto simp: bb upt_conv_Cons split: part.split)
    finally show ?thesis .
  qed
qed

lemma create_scaffold_eq:
  "create_scaffold d = d(DivSlider \<mapsto> new_node ''div'', DivMainPanelContainer \<mapsto> new_node ''div'',
     DivLeftScroller \<mapsto> new_node ''div'', DivRightScroller \<mapsto> new_node ''div'',
     DivCenterContainer \<mapsto> new_node ''div'', DivSlideMiddle \<mapsto> new_node ''div'',
     DivSlideMiddleData \<mapsto> new_node ''div'', DivSlideRight \<mapsto> new_node ''div'',
     DivSlideRightData \<mapsto> new_node ''div'', SpanLeftButton \<mapsto> new_node ''span'',
     SpanRightButton \<mapsto> new_node ''span'', UlBottomButtons \<mapsto> new_node ''ul'')"
  by (simp add: create_scaffold_def scaffold_def createElement_def)

lemma create_scaffold_children:
  "create_scaffold d p = Some m \<Longrightarrow> childNodes m = [] \<or> d p = Some m"
  by (simp add: create_scaffold_eq new_node_def split: if_splits) (auto simp: new_node_def)

lemma create_scaffold_Li: "create_scaffold d (LiBottomButton j) = d (LiBottomButton j)"
  by (simp add: create_scaffold_eq)

lemma dom_wf_child:
  assumes "dom_wf d" "d p = Some n" "c \<in> set (childNodes n)"
  shows "d c \<noteq> None" "c \<noteq> p"
proof -
  have "\<forall>c \<in> set (childNodes n). d c \<noteq> None \<and> c \<noteq> p"
    using assms(1,2) unfolding dom_wf_def by simp
  then show "d c \<noteq> None" "c \<noteq> p" using assms(3) by simp_all
qed

lemma document_child:
  assumes "dom_wf d" "\<forall>p. d p \<noteq> None \<longrightarrow> in_document p" "d p = Some n" "c \<in> set (childNodes n)"
  shows "in_document c"
  using assms(2) dom_wf_child(1) [OF assms(1,3,4)] by blast

lemma create_scaffold_fresh:
  assumes "\<forall>p. d p \<noteq> None \<longrightarrow> in_document p"
  shows "create_scaffold d (LiBottomButton j) = None"
proof -
  have "\<not> in_document (LiBottomButton j)" by (simp add: in_document_def)
  then have "d (LiBottomButton j) = None" using assms by blast
  then show ?thesis by (simp add: create_scaffold_Li)
qed

lemma loop_after_scaffold:
  assumes "dom_wf d" "\<forall>p. d p \<noteq> None \<longrightarrow> in_document p"
  shows "bottom_buttons_loop n 0 (create_scaffold d) q =
    (if q = UlBottomButtons then Some ((new_node ''ul'')\<lparr>childNodes := map LiBottomButton [0..<n]\<rparr>)
     else case q of LiBottomButton j \<Rightarrow> if j < n then Some (li_node j) else create_scaffold d q
          | _ \<Rightarrow> create_scaffold d q)"
proof -
  have nochild: "\<And>p m j. create_scaffold d p = Some m \<Longrightarrow> LiBottomButton j \<notin> set (childNodes m)"
  proof -
    fix p m j assume m: "create_scaffold d p = Some m"
    have "\<not> in_document (LiBottomButton j)" by (simp add: in_document_def)
    then show "LiBottomButton j \<notin> set (childNodes m)"
      using create_scaffold_children [OF m] document_child [OF assms, of p m "LiBottomButton j"]
      by auto
  qed
  have ul: "create_scaffold d UlBottomButtons = Some (new_node ''ul'')"
    by (simp add: create_scaffold_eq)
  have "bottom_buttons_loop n 0 (create_scaffold d) q =
    (if q = UlBottomButtons then Some ((new_node ''ul'')\<lparr>childNodes := childNodes (new_node ''ul'') @ map LiBottomButton [0..<n]\<rparr>)
     else case q of LiBottomButton j \<Rightarrow> if 0 \<le> j \<and> j < n then Some (li_node j) else create_scaffold d q
          | _ \<Rightarrow> create_scaffold d q)"
    by (rule bottom_buttons_loop_apply [where d = "create_scaffold d", OF ul]) (simp_all add: create_scaffold_fresh [OF assms(2)] nochild)
  then show ?thesis by (simp del: bottom_buttons_loop.simps add: new_node_def cong: part.case_cong)
qed

lemma scaffold_absent:
  assumes "dom_wf d" "\<forall>p. d p \<noteq> None \<longrightarrow> in_document p" "d p = Some m" "\<not> in_document c"
  shows "c \<notin> set (childNodes m)"
  using document_child [OF assms(1,2,3)] assms(4) by blast

lemma loop_layer:
  assumes "dom_wf d" "\<forall>p. d p \<noteq> None \<longrightarrow> in_document p"
  shows "bottom_buttons_loop n 0 (create_scaffold d) =
    (li_layer n d)(DivSlider \<mapsto> new_node ''div'', DivMainPanelContainer \<mapsto> new_node ''div'',
     DivLeftScroller \<mapsto> new_node ''div'', DivRightScroller \<mapsto> new_node ''div'',
     DivCenterContainer \<mapsto> new_node ''div'', DivSlideMiddle \<mapsto> new_node ''div'',
     DivSlideMiddleData \<mapsto> new_node ''div'', DivSlideRight \<mapsto> new_node ''div'',
     DivSlideRightData \<mapsto> new_node ''div'', SpanLeftButton \<mapsto> new_node ''span'',
     SpanRightButton \<mapsto> new_node ''span'',
     UlBottomButtons \<mapsto> (new_node ''ul'')\<lparr>childNodes := map LiBottomButton [0..<n]\<rparr>)"
proof (rule ext)
  fix q
  show "bottom_buttons_loop n 0 (create_scaffold d) q = ((li_layer n d)(DivSlider \<mapsto> new_node ''div'', DivMainPanelContainer \<mapsto> new_node ''div'',
     DivLeftScroller \<mapsto> new_node ''div'', DivRightScroller \<mapsto> new_node ''div'',
     DivCenterContainer \<mapsto> new_node ''div'', DivSlideMiddle \<mapsto> new_node ''div'',
     DivSlideMiddleData \<mapsto> new_node ''div'', DivSlideRight \<mapsto> new_node ''div'',
     DivSlideRightData \<mapsto> new_node ''div'', SpanLeftButton \<mapsto> new_node ''span'',
     SpanRightButton \<mapsto> new_node ''span'',
     UlBottomButtons \<mapsto> (new_node ''ul'')\<lparr>childNodes := map LiBottomButton [0..<n]\<rparr>)) q"
    unfolding loop_after_scaffold [OF assms]
    by (cases q) (simp_all add: create_scaffold_eq li_layer_def)
qed

lemma detach_layer:
  assumes "dom_wf d" "\<forall>p. d p \<noteq> None \<longrightarrow> in_document p" "\<not> in_document c"
  shows "detach c (li_layer n d) = li_layer n d"
proof (rule ext)
  fix q
  show "detach c (li_layer n d) q = li_layer n d q"
  proof (cases "li_layer n d q")
    case (Some m)
    have "c \<notin> set (childNodes m)"
    proof (cases "\<exists>j. q = LiBottomButton j \<and> j < n")
      case True
      then show ?thesis using Some by (auto simp: li_layer_def li_node_def new_node_def)
    next
      case False
      then have "d q = Some m" using Some by (auto simp: li_layer_def split: part.splits if_splits)
      then show ?thesis using scaffold_absent [OF assms(1,2) _ assms(3)] by blast
    qed
    then show ?thesis using Some by (simp add: detach_def)
  qed (simp add: detach_def)
qed

lemma li_layer_other [simp]:
  "li_layer n d DivSlider = d DivSlider" "li_layer n d Mount = d Mount" "li_layer n d (Other k) = d (Other k)"
  by (simp_all add: li_layer_def)

lemma overlay_Cons: "overlay B ((k, v) # al) q = (if q = k then Some v else overlay B al q)"
  by (simp add: overlay_def)

lemma overlay_Nil: "overlay B [] q = B q"
  by (simp add: overlay_def)

lemma detach_overlay:
  "detach c (overlay B al) = overlay (detach c B) (map (\<lambda>(q, n). (q, n\<lparr>childNodes := removeAll c (childNodes n)\<rparr>)) al)"
  by (induction al) (auto simp: detach_def fun_eq_iff overlay_def split: option.split)

lemma appendChild_overlay:
  assumes "detach c B = B" "overlay B al p = Some np" "overlay B al c \<noteq> None"
  shows "appendChild p c (overlay B al) =
    overlay B (AList.update p (np\<lparr>childNodes := removeAll c (childNodes np) @ [c]\<rparr>)
                 (map (\<lambda>(q, n). (q, n\<lparr>childNodes := removeAll c (childNodes n)\<rparr>)) al))"
proof -
  have "appendChild p c (overlay B al) = (detach c (overlay B al))(p \<mapsto> np\<lparr>childNodes := removeAll c (childNodes np) @ [c]\<rparr>)"
    using assms(2,3) by (auto simp: appendChild_def update_node_def detach_def)
  then show ?thesis by (simp add: detach_overlay assms(1) fun_eq_iff overlay_def update_conv')
qed

lemma update_node_overlay:
  "overlay B al p = Some np \<Longrightarrow> update_node p f (overlay B al) = overlay B (AList.update p (f np) al)"
  by (simp add: update_node_def fun_eq_iff overlay_def update_conv')

lemma removeAll_Li [simp]: "(\<And>j. c \<noteq> LiBottomButton j) \<Longrightarrow> removeAll c (map LiBottomButton xs) = map LiBottomButton xs"
  by (induction xs) auto

lemma appendChild_undef: "D p = None \<Longrightarrow> appendChild p c D = D"
  by (simp add: appendChild_def)

lemma loop_overlay:
  assumes "dom_wf d" "\<forall>p. d p \<noteq> None \<longrightarrow> in_document p"
  shows "bottom_buttons_loop n 0 (create_scaffold d) = overlay (li_layer n d) (scaffold_nodes n)"
  unfolding loop_layer [OF assms]
  by (simp add: fun_eq_iff scaffold_nodes_def overlay_def)

lemmas build_stage = set_styleWidth_def set_styleHeight_def
        addEventListener_def update_node_overlay class_names_def classList_add_def append_order_def
        appendChild_overlay in_document_def new_node_def scaffold_nodes_def token_add_def overlay_Cons overlay_Nil

lemma build_eq_None:
  assumes "dom_wf d" "\<forall>p. d p \<noteq> None \<longrightarrow> in_document p" "d Mount = None"
  shows "buildSliderDOM n sz d = slider_dom n sz d"
proof -
  have li: "\<And>j. d (LiBottomButton j) = None" using assms(2) by (auto simp: in_document_def)
  show ?thesis
    apply (simp add: buildSliderDOM_def Let_def loop_overlay [OF assms(1,2)])
    apply (cases sz)
     apply (simp_all add: build_stage detach_layer [OF assms(1,2)] appendChild_undef assms(3))
     apply (rule ext, rename_tac q, case_tac q, simp_all add: overlay_def slider_dom_def li_layer_def li li_node_def new_node_def assms(3))
    apply (rule ext, rename_tac q, case_tac q, simp_all add: overlay_def slider_dom_def li_layer_def li li_node_def new_node_def assms(3) split_def)
    done
qed

lemma build_eq_Some:
  assumes "dom_wf d" "\<forall>p. d p \<noteq> None \<longrightarrow> in_document p" "d Mount = Some m"
  shows "buildSliderDOM n sz d = slider_dom n sz d"
proof -
  have li: "\<And>j. d (LiBottomButton j) = None" using assms(2) by (auto simp: in_document_def)
  have nm: "DivSlider \<notin> set (childNodes m)"
    using scaffold_absent [OF assms] by (simp add: in_document_def)
  show ?thesis
    apply (simp add: buildSliderDOM_def Let_def loop_overlay [OF assms(1,2)])
    apply (cases sz)
     apply (simp_all add: build_stage detach_layer [OF assms(1,2)] assms(3) nm)
     apply (rule ext, rename_tac q, case_tac q, simp_all add: overlay_def slider_dom_def li_layer_def li li_node_def new_node_def assms(3))
    apply (rule ext, rename_tac q, case_tac q, simp_all add: overlay_def slider_dom_def li_layer_def li li_node_def new_node_def assms(3) split_def)
    done
qed

lemma build_eq:
  assumes "dom_wf d" "\<forall>p. d p \<noteq> None \<longrightarrow> in_document p"
  shows "buildSliderDOM n sz d = slider_dom n sz d"
  using build_eq_None [OF assms] build_eq_Some [OF assms] by (cases "d Mount") auto

lemma createSliderDOM_fst:
  "fst (createSliderDOM xs d) = createSliderFromHTMLElementArray xs (d Mount \<noteq> None)"
  by (simp add: createSliderDOM_def Let_def)

lemma create_mount:
  "createSliderFromHTMLElementArray xs mount = Inr r \<Longrightarrow> mount"
  by (auto simp: createSliderFromHTMLElementArray_def Let_def split: if_splits option.splits)

lemma createSliderDOM_Inr:
  assumes "dom_wf d" "\<forall>p. d p \<noteq> None \<longrightarrow> in_document p"
    and "createSliderFromHTMLElementArray xs (d Mount \<noteq> None) = Inr (c, s)"
  shows "createSliderDOM xs d =
    (Inr (c, s), slider_dom (len c) (Some (mainContainerWidth c, mainContainerHeight c)) d)"
proof -
  have m: "d Mount \<noteq> None" using create_mount assms(3) by blast
  obtain es where es: "xs \<noteq> []" "elements_of (take MAX_CAROUSEL_LENGTH xs) = Some es"
    "c = slider_cfg_of es"
    using create_Inr assms(3) m by (metis (full_types))
  have "NullItem \<notin> set (take MAX_CAROUSEL_LENGTH xs)" using es(2) by auto
  moreover have "length (take MAX_CAROUSEL_LENGTH xs) = len c"
    using elements_of_length [OF es(2)] es(3) by (simp add: slider_cfg_of_def Let_def)
  ultimately show ?thesis
    using es assms(3) build_eq [OF assms(1,2)]
    by (simp add: createSliderDOM_def Let_def cfg_size_def)
qed

lemma elements_of_lookup:
  "(\<forall>i \<in> set is. doc i \<noteq> None) \<Longrightarrow> elements_of (map (getElementById doc) is) = Some (map (the \<circ> doc) is)"
  by (induction "is") (auto simp: getElementById_def)

lemma null_lookup:
  "NullItem \<in> set (map (getElementById doc) is) \<longleftrightarrow> (\<exists>i \<in> set is. doc i = None)"
  by (induction "is") (auto simp: getElementById_def split: option.split)



lemma len_slider_cfg_of: "len (slider_cfg_of es) = length es"
  by (simp add: slider_cfg_of_def Let_def)

lemma create_Some:
  assumes "xs \<noteq> []" "elements_of (take MAX_CAROUSEL_LENGTH xs) = Some es"
  shows "createSliderFromHTMLElementArray xs True =
    Inr (slider_cfg_of es, updateBottomIndicator 0 (fillContainerCurrent (slider_cfg_of es) 0 slider_init))"
proof -
  have "NullItem \<notin> set (take MAX_CAROUSEL_LENGTH xs)" using assms(2) by auto
  then show ?thesis using assms by (simp add: createSliderFromHTMLElementArray_def Let_def)
qed






section \<open>Properties of the construction and the page setup\<close>

text \<open>
  C33: a successful construction builds exactly the slider's tree: the twelve
  scaffold elements with their tags, classes, children and listeners, one indicator
  per slide in slide order, the box size written on the outer element, and the
  slider appended as the last child of the mount point; the rest of the document is
  unchanged.
\<close>

theorem create_builds_tree:
  assumes "dom_wf d" "\<forall>p. d p \<noteq> None \<longrightarrow> in_document p"
    and "createSliderFromHTMLElementArray xs (d Mount \<noteq> None) = Inr (c, s)"
  shows "snd (createSliderDOM xs d) =
    slider_dom (len c) (Some (mainContainerWidth c, mainContainerHeight c)) d"
  using createSliderDOM_Inr [OF assms] by simp


text \<open>
  C35: when an item that is not an element reaches line 190, the exception is thrown
  after the slider has been appended to the mount point: the construction fails with
  the slider's DOM already on the page.
\<close>

theorem create_attaches_before_throw:
  assumes "dom_wf d" "\<forall>p. d p \<noteq> None \<longrightarrow> in_document p"
    and "fst (createSliderDOM xs d) = Inl (TypeError True)"
  shows "\<exists>m. d Mount = Some m \<and>
    snd (createSliderDOM xs d) Mount = Some (m\<lparr>childNodes := childNodes m @ [DivSlider]\<rparr>) \<and>
    snd (createSliderDOM xs d) DivSlider \<noteq> None"
proof -
  have r: "createSliderFromHTMLElementArray xs (d Mount \<noteq> None) = Inl (TypeError True)"
    using createSliderDOM_fst [of xs d] assms(3) by simp
  then have c: "xs \<noteq> []" "d Mount \<noteq> None" "NullItem \<notin> set (take MAX_CAROUSEL_LENGTH xs)"
    by (auto simp: createSliderFromHTMLElementArray_def Let_def split: if_splits option.splits)
  then obtain m where m: "d Mount = Some m" by blast
  have "snd (createSliderDOM xs d) =
      slider_dom (length (take MAX_CAROUSEL_LENGTH xs))
        (map_option cfg_size (elements_of (take MAX_CAROUSEL_LENGTH xs))) d"
    using c build_eq [OF assms(1,2)] by (simp add: createSliderDOM_def Let_def)
  then show ?thesis using m by (simp add: slider_dom_def)
qed

text \<open>
  C36: if any of the first ten ids of the page is missing from the document, the
  construction of the second slider throws at line 48 and the handler ends there:
  the slider of the lone image is never built.
\<close>

theorem onload_missing_aborts:
  assumes "i \<in> set (take MAX_CAROUSEL_LENGTH ids1)" "doc i = None"
  shows "window_onload doc = [Inl EmptyArray, Inl (TypeError False)]"
proof -
  have "NullItem \<in> set (take MAX_CAROUSEL_LENGTH (map (getElementById doc) ids1))"
    using null_lookup [of doc "take MAX_CAROUSEL_LENGTH ids1"] assms by (auto simp: take_map)
  then show ?thesis
    by (simp add: window_onload_def createSliderFromHTMLElementArray_def Let_def throws_def ids1_def)
qed



text \<open>
  C37: when the first ten ids and the lone image are present, the page builds a
  ten-slide and a one-slide slider after the empty-array warning, whether or not the
  eleventh id exists.
\<close>

theorem onload_builds:
  assumes "\<forall>i \<in> set (take MAX_CAROUSEL_LENGTH ids1 @ ids2). doc i \<noteq> None"
  shows "\<exists>c3 s3 c2 s2. window_onload doc = [Inl EmptyArray, Inr (c3, s3), Inr (c2, s2)] \<and>
           len c3 = MAX_CAROUSEL_LENGTH \<and> len c2 = 1"
proof -
  have e1: "elements_of (take MAX_CAROUSEL_LENGTH (map (getElementById doc) ids1)) =
      Some (map (the \<circ> doc) (take MAX_CAROUSEL_LENGTH ids1))"
    using elements_of_lookup [of "take MAX_CAROUSEL_LENGTH ids1" doc] assms by (simp add: take_map)
  have e2: "elements_of (take MAX_CAROUSEL_LENGTH (map (getElementById doc) ids2)) =
      Some (map (the \<circ> doc) ids2)"
    using elements_of_lookup [of ids2 doc] assms by (simp add: ids2_def MAX_CAROUSEL_LENGTH_def)
  have n1: "map (getElementById doc) ids1 \<noteq> []" and n2: "map (getElementById doc) ids2 \<noteq> []"
    by (simp_all add: ids1_def ids2_def)
  have l1: "length (map (the \<circ> doc) (take MAX_CAROUSEL_LENGTH ids1)) = MAX_CAROUSEL_LENGTH"
    and l2: "length (map (the \<circ> doc) ids2) = 1"
    by (simp_all add: ids1_def ids2_def MAX_CAROUSEL_LENGTH_def)
  show ?thesis
    unfolding window_onload_def Let_def create_Some [OF n1 e1] create_Some [OF n2 e2]
    using l1 l2 by (simp add: throws_def createSliderFromHTMLElementArray_def len_slider_cfg_of)
qed

subsection \<open>Witnesses\<close>

lemma demo_doc_ok: "dom_wf demo_doc \<and> (\<forall>p. demo_doc p \<noteq> None \<longrightarrow> in_document p)"
  by (simp add: demo_doc_def dom_wf_def new_node_def in_document_def)

theorem create_builds_tree_witness:
  "snd (createSliderDOM demo_items demo_doc) = slider_dom 4 (Some (200, 100)) demo_doc"
  using create_builds_tree [of demo_doc demo_items demo_cfg demo_slider] demo_doc_ok demo_created
  by (simp add: demo_doc_def demo_cfg_def)


theorem create_attaches_before_throw_witness:
  "snd (createSliderDOM [HtmlElement \<lparr>offsetWidth = 10, offsetHeight = 10\<rparr>, OtherValue] demo_doc) Mount =
   Some ((new_node ''body'')\<lparr>childNodes := [DivSlider]\<rparr>)"
  using create_attaches_before_throw [of demo_doc "[HtmlElement \<lparr>offsetWidth = 10, offsetHeight = 10\<rparr>, OtherValue]"]
    demo_doc_ok
  by (simp add: demo_doc_def createSliderDOM_def createSliderFromHTMLElementArray_def Let_def
      MAX_CAROUSEL_LENGTH_def new_node_def)

theorem onload_missing_aborts_witness:
  "window_onload (\<lambda>i. if i = ''p2'' then None else Some \<lparr>offsetWidth = 10, offsetHeight = 10\<rparr>) =
   [Inl EmptyArray, Inl (TypeError False)]"
  using onload_missing_aborts [of "''p2''" "\<lambda>i. if i = ''p2'' then None else Some \<lparr>offsetWidth = 10, offsetHeight = 10\<rparr>"]
  by (simp add: ids1_def MAX_CAROUSEL_LENGTH_def)

theorem onload_builds_witness:
  "\<exists>c3 s3 c2 s2. window_onload (\<lambda>i. if i = ''eleventh'' then None else Some \<lparr>offsetWidth = 10, offsetHeight = 10\<rparr>) =
     [Inl EmptyArray, Inr (c3, s3), Inr (c2, s2)] \<and> len c3 = 10 \<and> len c2 = 1"
  using onload_builds [of "\<lambda>i. if i = ''eleventh'' then None else Some \<lparr>offsetWidth = 10, offsetHeight = 10\<rparr>"]
  by (simp add: ids1_def ids2_def MAX_CAROUSEL_LENGTH_def)

end
