(* ===== verification/Notab.thy ===== *)
theory Notab
  imports Prelude
begin

text \<open>
  The page glue of \<open>src/Scripts/Notab.js\<close>: the cookie banner (shown once, after
  scrolling 300 px or five seconds after load, hidden when accepted), the
  scroll-driven animation of the mission section, and the \<open>validate\<close> form check.
  The closure variables and the parts of the DOM the listeners write are the record
  \<open>page\<close>; which listeners are still registered are fields too, since the
  listeners remove themselves. Each browser event is one call of \<open>page_step\<close>.
\<close>

section \<open>Page state\<close>

text \<open>
  \<open>missionPose\<close> is the style \<open>animateElements\<close> last wrote: the image's rotation
  in degrees, the paragraph's opacity and the percentage in the section's \<open>left\<close>;
  \<open>None\<close> while the stylesheet's values apply. \<open>loaded\<close> records that the window's
  \<open>load\<close> event has fired.
\<close>

record page =
  cookieShown :: bool
  animationProgress :: real
  holderHidden :: bool
  scrollListener :: bool
  scroll2Listener :: bool
  acceptListener :: bool
  timerPending :: bool
  loaded :: bool
  missionPose :: "(real \<times> real \<times> real) option"

text \<open>What \<open>scroll2\<close> reads: the window's scroll offset and height, and the mission
  section's \<open>offsetTop\<close> and \<open>offsetHeight\<close>.\<close>

record viewport =
  scrollY :: real
  innerHeight :: real
  missionTop :: real
  missionHeight :: real

text \<open>
  The state once the script has run: both scroll listeners and the resize listener
  registered, the banner hidden (its holder carries the class \<open>hidden\<close> in the page's
  markup), no style written yet.
\<close>

definition page_init :: page where
  "page_init =
     \<lparr>cookieShown = False, animationProgress = 0, holderHidden = True, scrollListener = True,
      scroll2Listener = True, acceptListener = False, timerPending = False, loaded = False,
      missionPose = None\<rparr>"

section \<open>Listeners\<close>

definition show_banner :: "page \<Rightarrow> page" where
  "show_banner p = p\<lparr>holderHidden := False, scrollListener := False, cookieShown := True\<rparr>"

definition scroll :: "real \<Rightarrow> page \<Rightarrow> page" where
  "scroll y p = (if \<not> cookieShown p \<and> 300 < y then show_banner p else p)"

definition animateElements :: "real \<Rightarrow> page \<Rightarrow> page" where
  "animateElements x p = p\<lparr>missionPose := Some (90 * (1 - x), 1 - x, x * 50)\<rparr>"

definition scroll2 :: "viewport \<Rightarrow> page \<Rightarrow> page" where
  "scroll2 v p =
     (let windowBottom = innerHeight v + scrollY v;
          scrolledProgress = (windowBottom - missionTop v) / missionHeight v
      in if 1 / 2 < scrolledProgress
         then
           let ap = min 1 (2 * scrolledProgress - 1);
               p1 = animateElements ap (p\<lparr>animationProgress := ap\<rparr>)
           in if ap = 1 then p1\<lparr>scroll2Listener := False\<rparr> else p1
         else animateElements 0 p)"

definition cookiesListener :: "page \<Rightarrow> page" where
  "cookiesListener p = p\<lparr>acceptListener := False, holderHidden := True, scrollListener := False\<rparr>"

definition onLoad :: "page \<Rightarrow> page" where
  "onLoad p = p\<lparr>loaded := True, acceptListener := True, timerPending := True\<rparr>"

definition cookieTimeout :: "page \<Rightarrow> page" where
  "cookieTimeout p = (if cookieShown p then p else show_banner p)"

section \<open>Events\<close>

text \<open>
  A document scroll runs \<open>scroll\<close> and then \<open>scroll2\<close>, each if still registered;
  a resize runs \<open>scroll2\<close>; \<open>TimeoutFired\<close> is the five-second timer set on load;
  \<open>AcceptClick\<close> is a click on the accept button.
\<close>

datatype page_event = Scroll viewport | Resize viewport | LoadEvent | TimeoutFired | AcceptClick

definition page_step :: "page_event \<Rightarrow> page \<Rightarrow> page" where
  "page_step e p =
     (case e of
        Scroll v \<Rightarrow>
          (let p1 = (if scrollListener p then scroll (scrollY v) p else p)
           in if scroll2Listener p1 then scroll2 v p1 else p1)
      | Resize v \<Rightarrow> (if scroll2Listener p then scroll2 v p else p)
      | LoadEvent \<Rightarrow> onLoad p
      | TimeoutFired \<Rightarrow> cookieTimeout (p\<lparr>timerPending := False\<rparr>)
      | AcceptClick \<Rightarrow> (if acceptListener p then cookiesListener p else p))"

text \<open>
  Events the browser can deliver: \<open>load\<close> once, the timer only when set, a click on
  the button only while the banner is visible, and scroll geometry with a section of
  positive height.
\<close>

definition page_valid :: "page \<Rightarrow> page_event \<Rightarrow> bool" where
  "page_valid p e =
     (case e of
        Scroll v \<Rightarrow> 0 < missionHeight v
      | Resize v \<Rightarrow> 0 < missionHeight v
      | LoadEvent \<Rightarrow> \<not> loaded p
      | TimeoutFired \<Rightarrow> timerPending p
      | AcceptClick \<Rightarrow> \<not> holderHidden p)"

inductive page_reachable :: "page \<Rightarrow> bool" where
  init: "page_reachable page_init"
| step: "page_reachable p \<Longrightarrow> page_valid p e \<Longrightarrow> page_reachable (page_step e p)"

definition pose_ok :: "(real \<times> real \<times> real) option \<Rightarrow> bool" where
  "pose_ok q =
     (case q of None \<Rightarrow> True
      | Some (d, a, l) \<Rightarrow> 0 \<le> d \<and> d \<le> 90 \<and> in_unit a \<and> 0 \<le> l \<and> l \<le> 50)"

definition page_inv :: "page \<Rightarrow> bool" where
  "page_inv p \<longleftrightarrow>
     (holderHidden p \<or> cookieShown p) \<and> (scrollListener p \<longleftrightarrow> \<not> cookieShown p) \<and>
     (acceptListener p \<longrightarrow> loaded p) \<and> (timerPending p \<longrightarrow> loaded p) \<and>
     in_unit (animationProgress p) \<and> pose_ok (missionPose p) \<and>
     (scroll2Listener p \<or> animationProgress p = 1 \<and> missionPose p = Some (0, 0, 50))"

section \<open>Form check\<close>

text \<open>
  \<open>validate(form)\<close> walks the form's \<open>input\<close> elements followed by
  \<open>form.getElementsByTagName("textarea")[0]\<close>, which is \<open>undefined\<close>
  (\<open>None\<close>) on a form without a textarea. A field carries its \<open>type\<close>, its
  \<open>value\<close> and whether its class list holds \<open>invalid\<close>.
\<close>

record field =
  field_type :: string
  field_value :: string
  field_invalid :: bool

record form =
  form_inputs :: "field list"
  form_textarea :: "field option"

text \<open>\<open>Submitted\<close> is \<open>form.submit()\<close>, \<open>Rejected\<close> the returned \<open>false\<close>, and
  \<open>ValidateTypeError\<close> the exception \<open>input.type\<close> throws on \<open>undefined\<close>.\<close>

datatype validate_outcome = Submitted | Rejected | ValidateTypeError

text \<open>
  The loop of lines 64--73 over the remaining fields and the current \<open>passed\<close>: it
  returns the fields it has visited, with their classes as it left them, and the final
  \<open>passed\<close>, or \<open>None\<close> where it throws.
\<close>

fun check_fields :: "field option list \<Rightarrow> bool \<Rightarrow> field list \<times> bool option" where
  "check_fields [] passed = ([], Some passed)"
| "check_fields (None # xs) passed = ([], None)"
| "check_fields (Some f # xs) passed =
     (if field_type f = ''submit'' then (let (fs, r) = check_fields xs passed in (f # fs, r))
      else if length (field_value f) = 0
      then (let (fs, r) = check_fields xs False in (f\<lparr>field_invalid := True\<rparr> # fs, r))
      else (let (fs, r) = check_fields xs passed in (f\<lparr>field_invalid := False\<rparr> # fs, r)))"

definition validate :: "form \<Rightarrow> field list \<times> validate_outcome" where
  "validate frm =
     (let (fs, r) = check_fields (map Some (form_inputs frm) @ [form_textarea frm]) True
      in (fs, case r of None \<Rightarrow> ValidateTypeError
                 | Some passed \<Rightarrow> if passed then Submitted else Rejected))"

text \<open>What the loop does to one field, and the condition it checks.\<close>

definition mark :: "field \<Rightarrow> field" where
  "mark f = (if field_type f = ''submit'' then f else f\<lparr>field_invalid := field_value f = []\<rparr>)"

definition field_ok :: "field \<Rightarrow> bool" where
  "field_ok f \<longleftrightarrow> field_type f = ''submit'' \<or> 0 < length (field_value f)"

section \<open>Lemmas\<close>

lemma check_fields_inputs:
  "check_fields (map Some xs @ rest) passed =
     (let (fs, r) = check_fields rest (passed \<and> list_all field_ok xs) in (map mark xs @ fs, r))"
proof (induction xs arbitrary: passed)
  case Nil
  then show ?case by (simp add: split_def)
next
  case (Cons x xs)
  then show ?case by (auto simp: mark_def field_ok_def split_def Let_def)
qed

lemma show_banner_sel [simp]:
  "holderHidden (show_banner p) = False" "cookieShown (show_banner p)"
  "scrollListener (show_banner p) = False"
  "acceptListener (show_banner p) = acceptListener p" "timerPending (show_banner p) = timerPending p"
  "loaded (show_banner p) = loaded p" "scroll2Listener (show_banner p) = scroll2Listener p"
  "animationProgress (show_banner p) = animationProgress p" "missionPose (show_banner p) = missionPose p"
  by (simp_all add: show_banner_def)

lemma scroll2_sel [simp]:
  "cookieShown (scroll2 v p) = cookieShown p" "holderHidden (scroll2 v p) = holderHidden p"
  "scrollListener (scroll2 v p) = scrollListener p" "acceptListener (scroll2 v p) = acceptListener p"
  "timerPending (scroll2 v p) = timerPending p" "loaded (scroll2 v p) = loaded p"
  by (simp_all add: scroll2_def animateElements_def Let_def)

lemma animateElements_sel [simp]:
  "missionPose (animateElements x p) = Some (90 * (1 - x), 1 - x, x * 50)"
  "animationProgress (animateElements x p) = animationProgress p"
  "scroll2Listener (animateElements x p) = scroll2Listener p"
  by (simp_all add: animateElements_def)

lemma pose_ok_animate: "in_unit x \<Longrightarrow> pose_ok (missionPose (animateElements x p))"
  by (simp add: pose_ok_def in_unit_def)

lemma animateElements_final: "missionPose (animateElements 1 p) = Some (0, 0, 50)"
  by simp

lemma progress_in_unit: "1 / 2 < s \<Longrightarrow> in_unit (min 1 (2 * s - 1))"
  by (auto simp: in_unit_def min_def)

lemma scroll2_inv:
  assumes "in_unit (animationProgress p)"
  shows "in_unit (animationProgress (scroll2 v p)) \<and> pose_ok (missionPose (scroll2 v p)) \<and>
    (scroll2Listener (scroll2 v p) = scroll2Listener p \<or>
     animationProgress (scroll2 v p) = 1 \<and> missionPose (scroll2 v p) = Some (0, 0, 50))"
proof -
  define s where "s = (innerHeight v + scrollY v - missionTop v) / missionHeight v"
  show ?thesis
    using assms progress_in_unit[of s] pose_ok_animate unfolding scroll2_def Let_def s_def[symmetric]
    by (auto simp del: animateElements_sel(1) simp: animateElements_final pose_ok_def)
qed

lemma page_inv_init: "page_inv page_init"
  by (simp add: page_inv_def page_init_def pose_ok_def)

lemma page_inv_step:
  assumes "page_inv p" "page_valid p e"
  shows "page_inv (page_step e p)"
proof (cases e)
  case (Scroll v)
  let ?p1 = "if scrollListener p then scroll (scrollY v) p else p"
  have p1: "page_inv ?p1" using assms(1) by (auto simp: page_inv_def scroll_def)
  have "scroll2Listener ?p1 = scroll2Listener p" by (simp add: scroll_def)
  then show ?thesis using p1 scroll2_inv[of ?p1 v] Scroll
    by (auto simp: page_step_def Let_def page_inv_def)
next
  case (Resize v)
  then show ?thesis using assms(1) scroll2_inv[of p v] by (auto simp: page_step_def page_inv_def)
next
  case LoadEvent
  then show ?thesis using assms by (simp add: page_step_def page_inv_def onLoad_def)
next
  case TimeoutFired
  then show ?thesis using assms by (auto simp: page_step_def page_inv_def cookieTimeout_def)
next
  case AcceptClick
  then show ?thesis using assms by (auto simp: page_step_def page_inv_def page_valid_def cookiesListener_def)
qed

lemma page_reachable_inv: "page_reachable p \<Longrightarrow> page_inv p"
  by (induction rule: page_reachable.induct) (auto intro: page_inv_init page_inv_step)

lemma dismissed_step:
  assumes "page_inv p" "cookieShown p" "holderHidden p"
  shows "holderHidden (page_step e p) \<and> cookieShown (page_step e p)"
  using assms by (cases e) (auto simp: page_step_def page_inv_def Let_def cookieTimeout_def scroll_def
    cookiesListener_def onLoad_def)

lemma final_step:
  assumes "page_inv p" "\<not> scroll2Listener p"
  shows "missionPose (page_step e p) = Some (0, 0, 50) \<and> \<not> scroll2Listener (page_step e p)"
  using assms by (cases e) (auto simp: page_step_def page_inv_def Let_def cookieTimeout_def scroll_def
    cookiesListener_def onLoad_def show_banner_def)

lemma page_reachable_steps:
  "page_reachable p \<Longrightarrow> page_valid p e \<Longrightarrow> page_reachable (page_step e p)"
  by (rule page_reachable.step)

lemmas page_eval = page_step_def page_valid_def page_init_def onLoad_def cookieTimeout_def
  cookiesListener_def scroll_def scroll2_def show_banner_def animateElements_def Let_def

section \<open>Properties of the page glue\<close>

text \<open>
  C23: once the visitor has accepted the banner (it has been shown and is hidden
  again), no event of the page shows it again: neither a later scroll past 300 px
  nor the five-second timer.
\<close>

theorem banner_stays_dismissed:
  assumes "page_reachable p" "cookieShown p" "holderHidden p"
  shows "holderHidden (page_step e p) \<and> cookieShown (page_step e p)"
  using dismissed_step page_reachable_inv assms by blast

theorem banner_stays_dismissed_witness:
  "holderHidden (page_step (Scroll \<lparr>scrollY = 400, innerHeight = 800, missionTop = 5000, missionHeight = 600\<rparr>)
     (page_step AcceptClick (page_step TimeoutFired (page_step LoadEvent page_init))))"
proof -
  let ?p = "page_step AcceptClick (page_step TimeoutFired (page_step LoadEvent page_init))"
  have "page_reachable ?p"
    by (intro page_reachable_steps page_reachable.init) (simp_all add: page_eval)
  moreover have "cookieShown ?p \<and> holderHidden ?p" by (simp add: page_eval)
  ultimately show ?thesis using banner_stays_dismissed by blast
qed

text \<open>
  C24: in every reachable page the banner is visible only once \<open>cookieShown\<close> is set,
  and the \<open>scroll\<close> listener is registered exactly while it is not set: the banner is
  shown at most once.
\<close>

theorem banner_shown_flag:
  assumes "page_reachable p"
  shows "(holderHidden p \<or> cookieShown p) \<and> (scrollListener p \<longleftrightarrow> \<not> cookieShown p)"
  using page_reachable_inv[OF assms] by (simp add: page_inv_def)

theorem banner_shown_flag_witness:
  "cookieShown (page_step (Scroll \<lparr>scrollY = 400, innerHeight = 800, missionTop = 5000, missionHeight = 600\<rparr>) page_init)
   \<and> \<not> scrollListener (page_step (Scroll \<lparr>scrollY = 400, innerHeight = 800, missionTop = 5000, missionHeight = 600\<rparr>) page_init)"
proof -
  let ?p = "page_step (Scroll \<lparr>scrollY = 400, innerHeight = 800, missionTop = 5000, missionHeight = 600\<rparr>) page_init"
  have "page_reachable ?p"
    by (intro page_reachable_steps page_reachable.init) (simp_all add: page_eval)
  moreover have "\<not> holderHidden ?p" by (simp add: page_eval)
  ultimately show ?thesis using banner_shown_flag by blast
qed

text \<open>
  C25: the accept button's listener is only attached on \<open>load\<close>. A banner shown by a
  scroll before the page has loaded ignores clicks on its accept button.
\<close>

theorem accept_before_load_ignored:
  assumes "page_reachable p" "\<not> loaded p"
  shows "page_step AcceptClick p = p"
  using page_reachable_inv[OF assms(1)] assms(2) by (simp add: page_inv_def page_step_def)

theorem accept_before_load_ignored_witness:
  "page_step AcceptClick (page_step (Scroll \<lparr>scrollY = 400, innerHeight = 800, missionTop = 5000, missionHeight = 600\<rparr>) page_init)
   = page_step (Scroll \<lparr>scrollY = 400, innerHeight = 800, missionTop = 5000, missionHeight = 600\<rparr>) page_init
   \<and> \<not> holderHidden (page_step (Scroll \<lparr>scrollY = 400, innerHeight = 800, missionTop = 5000, missionHeight = 600\<rparr>) page_init)"
proof -
  let ?p = "page_step (Scroll \<lparr>scrollY = 400, innerHeight = 800, missionTop = 5000, missionHeight = 600\<rparr>) page_init"
  have "page_reachable ?p"
    by (intro page_reachable_steps page_reachable.init) (simp_all add: page_eval)
  moreover have "\<not> loaded ?p \<and> \<not> holderHidden ?p" by (simp add: page_eval)
  ultimately show ?thesis using accept_before_load_ignored by blast
qed

text \<open>
  C26: the scroll effect stays in range on every reachable page: the stored progress
  is in \<open>[0, 1]\<close>, the image's rotation in \<open>[0, 90]\<close> degrees, the paragraph's
  opacity in \<open>[0, 1]\<close> and the section's offset in \<open>[0, 50]\<close> percent.
\<close>

theorem scroll_pose_bounds:
  assumes "page_reachable p"
  shows "in_unit (animationProgress p) \<and> pose_ok (missionPose p)"
  using page_reachable_inv[OF assms] by (simp add: page_inv_def)

theorem scroll_pose_bounds_witness:
  "pose_ok (missionPose (page_step (Scroll \<lparr>scrollY = 700, innerHeight = 800, missionTop = 1000, missionHeight = 600\<rparr>) page_init))"
proof -
  let ?p = "page_step (Scroll \<lparr>scrollY = 700, innerHeight = 800, missionTop = 1000, missionHeight = 600\<rparr>) page_init"
  have "page_reachable ?p"
    by (intro page_reachable_steps page_reachable.init) (simp_all add: page_eval)
  then show ?thesis using scroll_pose_bounds by blast
qed

text \<open>
  C27: once the scroll effect has reached progress 1, \<open>scroll2\<close> has removed itself
  from both the document and the window: whatever the page does next, the elements
  stay in their final pose (no rotation, opacity 0, offset 50 percent).
\<close>

theorem scroll_effect_final:
  assumes "page_reachable p" "\<not> scroll2Listener p"
  shows "missionPose (page_step e p) = Some (0, 0, 50) \<and> \<not> scroll2Listener (page_step e p)"
  using final_step page_reachable_inv assms by blast

theorem scroll_effect_final_witness:
  "missionPose (page_step (Scroll \<lparr>scrollY = 0, innerHeight = 800, missionTop = 1000, missionHeight = 600\<rparr>)
     (page_step (Scroll \<lparr>scrollY = 5000, innerHeight = 800, missionTop = 4000, missionHeight = 600\<rparr>) page_init))
   = Some (0, 0, 50)"
proof -
  let ?p = "page_step (Scroll \<lparr>scrollY = 5000, innerHeight = 800, missionTop = 4000, missionHeight = 600\<rparr>) page_init"
  have "page_reachable ?p"
    by (intro page_reachable_steps page_reachable.init) (simp_all add: page_eval)
  moreover have "\<not> scroll2Listener ?p" by (simp add: page_eval)
  ultimately show ?thesis using scroll_effect_final by blast
qed

text \<open>
  C28: on a form with a textarea, \<open>validate\<close> marks exactly the empty fields that are
  not submit buttons as \<open>invalid\<close>, clears the mark on the other non-submit fields,
  and submits the form exactly when no such field is empty.
\<close>

theorem validate_outcome:
  assumes "form_textarea frm = Some t"
  shows "validate frm = (map mark (form_inputs frm @ [t]),
           if list_all field_ok (form_inputs frm @ [t]) then Submitted else Rejected)"
  using assms check_fields_inputs[of "form_inputs frm" "[Some t]" True]
  by (simp add: validate_def split_def Let_def mark_def field_ok_def)

theorem validate_outcome_witness:
  "validate \<lparr>form_inputs = [\<lparr>field_type = ''text'', field_value = ''Ann'', field_invalid = True\<rparr>,
                            \<lparr>field_type = ''submit'', field_value = [], field_invalid = False\<rparr>],
             form_textarea = Some \<lparr>field_type = ''textarea'', field_value = [], field_invalid = False\<rparr>\<rparr>
   = ([\<lparr>field_type = ''text'', field_value = ''Ann'', field_invalid = False\<rparr>,
       \<lparr>field_type = ''submit'', field_value = [], field_invalid = False\<rparr>,
       \<lparr>field_type = ''textarea'', field_value = [], field_invalid = True\<rparr>], Rejected)"
  using validate_outcome[of "\<lparr>form_inputs = [\<lparr>field_type = ''text'', field_value = ''Ann'', field_invalid = True\<rparr>,
                            \<lparr>field_type = ''submit'', field_value = [], field_invalid = False\<rparr>],
             form_textarea = Some \<lparr>field_type = ''textarea'', field_value = [], field_invalid = False\<rparr>\<rparr>"]
  by (simp add: mark_def field_ok_def)

text \<open>
  C29: on a form without a textarea the pushed \<open>undefined\<close> is reached after every
  input has been marked, and reading its \<open>type\<close> throws: \<open>validate\<close> never submits
  such a form, whatever its inputs hold.
\<close>

theorem validate_no_textarea:
  assumes "form_textarea frm = None"
  shows "validate frm = (map mark (form_inputs frm), ValidateTypeError)"
  using assms check_fields_inputs[of "form_inputs frm" "[None]" True]
  by (simp add: validate_def split_def Let_def)

theorem validate_no_textarea_witness:
  "validate \<lparr>form_inputs = [\<lparr>field_type = ''email'', field_value = ''a@b.c'', field_invalid = True\<rparr>],
             form_textarea = None\<rparr>
   = ([\<lparr>field_type = ''email'', field_value = ''a@b.c'', field_invalid = False\<rparr>], ValidateTypeError)"
  using validate_no_textarea[of "\<lparr>form_inputs = [\<lparr>field_type = ''email'', field_value = ''a@b.c'', field_invalid = True\<rparr>],
             form_textarea = None\<rparr>"]
  by (simp add: mark_def)

end
