(* ===== verification/Spec2Isabelle.thy ===== *)
theory Spec2Isabelle
  imports Slider_DOM Notab
begin

text \<open>
  \<^bold>\<open>A verification development of the slider and animation scripts\<close>

  \<^bold>\<open>The program.\<close> \<open>src/Scripts/Animation.js\<close> defines \<open>Animation\<close>, a
  progress-over-time driver advanced by \<open>requestAnimationFrame\<close>, with
  \<open>run\<close>, \<open>cancel\<close>, \<open>pause\<close>, \<open>resume\<close>, \<open>reverse\<close>, \<open>slow\<close>, \<open>cycle\<close> and
  \<open>setDuration\<close>, and two methods an owner overrides, \<open>onUpdate\<close> and
  \<open>onFinish\<close>. \<open>src/Scripts/Slider.js\<close> defines
  \<open>createSliderFromHTMLElementArray\<close>, which builds a carousel over at most ten DOM
  elements. The carousel owns one \<open>Animation\<close>, overrides its hooks, and turns a
  click on an indicator or an arrow into a chain of single-slide steps in the shorter
  direction. \<open>src/Scripts/Notab.js\<close> holds page glue: a cookie banner, scroll-driven
  effects and a form check. It does not use the other two files.

  \<^bold>\<open>How they interact.\<close> A click calls \<open>onClickAction\<close>. \<open>slideTo\<close> takes the lock,
  plans the steps and calls \<open>launchAnimation\<close>, which fills the next container and
  calls \<open>run()\<close>. \<open>run()\<close> calls \<open>onUpdate\<close> and then \<open>animate()\<close> synchronously.
  Each display frame runs a queued \<open>animate()\<close>. That call either queues the next
  frame and calls \<open>onUpdate\<close> (the slider moves the carousel), or calls \<open>onFinish\<close>
  (the slider swaps the containers and either launches the next step or releases the
  lock).

  \<^bold>\<open>Theories.\<close>
  \<^item> \<open>Prelude\<close>: timestamps (\<open>ms = int\<close>) and pixels (\<open>px = real\<close>). Also the
    JavaScript operations the code relies on: \<open>js_rem\<close> for \<open>%\<close> (truncated
    remainder), \<open>js_or\<close> for \<open>dur || 1000\<close>, \<open>js_max_apply\<close> for
    \<open>Math.max.apply\<close>. And the unit interval \<open>in_unit\<close>.
  \<^item> \<open>Animation\<close>: the record \<open>anim\<close> holds the closure variables of
    \<open>Animation\<close> and the public \<open>reverseFlag\<close>. It adds \<open>queued\<close>, the number
    of this object's \<open>animate\<close> callbacks waiting in the browser's frame queue.
    There is one definition per method: \<open>new_Animation\<close>, \<open>setDuration\<close>,
    \<open>cancel\<close>, \<open>pause\<close>, \<open>resume\<close>, \<open>reverse\<close>, \<open>slow\<close>, \<open>cycle\<close>.
    \<open>animate_tick\<close> is the body of \<open>animate()\<close> up to its hook call. The
    overridable methods are the record \<open>anim_hooks\<close>, over any owner state \<open>'s\<close>.
    \<open>run_with\<close> and \<open>animate_with\<close> are \<open>run()\<close>/\<open>onStart()\<close> and
    \<open>animate()\<close> with those hooks. \<open>frame_with\<close> is one display frame.
    \<open>proto_hooks\<close> are the prototype's default methods.
  \<^item> \<open>Slider\<close>: \<open>slider_cfg\<close> holds the constants computed at construction. The
    record \<open>slider\<close> holds the fields of the source's object literal, plus the DOM
    state the slider writes: the carousel offset, the children and positions of the
    two containers, the items shown and the indicators marked. Its methods
    \<open>trunc\<close>, \<open>getNextSlideIndex\<close>, \<open>launchAnimation\<close>, \<open>onClickAction\<close>,
    \<open>updateBottomIndicator\<close>, \<open>slideTo\<close>, \<open>fillContainerCurrent\<close> and
    \<open>fillContainerNext\<close> keep the source's names. The hook overrides are
    \<open>slider_onUpdate\<close> and \<open>slider_onFinish\<close>, packed as \<open>slider_hooks\<close>.
    \<open>slider_event\<close> is the listeners' dispatch.
    \<open>createSliderFromHTMLElementArray\<close> is the construction, including its error
    paths.
  \<^item> \<open>Slider_DOM\<close>: the DOM the construction builds (lines 55--67 and 146--187 of
    \<open>Slider.js\<close>) and the page setup \<open>window.onload\<close> (lines 198--209). The
    document is an explicit store from node identities (\<open>part\<close>) to nodes
    (\<open>node\<close>). The browser calls the code makes are functions on it:
    \<open>createElement\<close>, \<open>classList_add\<close>, \<open>set_textContent\<close>,
    \<open>addEventListener\<close>, the style writes, and \<open>appendChild\<close>, which first
    detaches the child. \<open>buildSliderDOM\<close> composes them in the source's order; the
    indicator loop is \<open>bottom_buttons_loop\<close>. \<open>createSliderDOM\<close> pairs the
    result of \<open>createSliderFromHTMLElementArray\<close> with the DOM each path leaves.
    \<open>window_onload\<close> runs the three constructions of the page, an exception ending
    the handler. \<open>slider_dom\<close> is the reference tree, described node by node.
  \<^item> \<open>Notab\<close>: the page glue of \<open>Notab.js\<close>. The record \<open>page\<close> holds the
    closure variables \<open>cookieShown\<close> and \<open>animationProgress\<close>, the banner's
    \<open>hidden\<close> class, which listeners are still registered, and the style
    \<open>animateElements\<close> last wrote. The listeners \<open>scroll\<close>, \<open>scroll2\<close>,
    \<open>animateElements\<close> and \<open>cookiesListener\<close> keep their names. The load handler
    is \<open>onLoad\<close>, and its five-second callback is \<open>cookieTimeout\<close>. \<open>page_step\<close>
    delivers one browser event to the listeners still registered, in registration
    order. \<open>validate\<close> is the form check; its loop is \<open>check_fields\<close>.

  \<^bold>\<open>Interface.\<close> The animation is generic in its owner. The slider instantiates it
  with \<open>slider_hooks\<close> and discharges \<open>hooks_ok\<close> (\<open>slider_hooks_ok\<close>): its
  \<open>onUpdate\<close> leaves the animation's clock alone. This is what makes the
  \<open>animate()\<close> nested in \<open>run()\<close> report progress 0 and never re-enter
  \<open>onFinish\<close> (\<open>run_with_Suc_Suc\<close>).

  \<^bold>\<open>What is proved.\<close> In \<open>Slider\<close>:
  \<^item> The invariant \<open>slider_inv\<close> holds in every reachable state, by rule induction on
    \<open>reachable\<close>. The reachable states are the results of a successful construction
    and every valid event applied at a time no earlier than the last one.
  \<^item> Corollaries of the invariant: the lock, the single queued frame, and distinct
    containers.
  \<^item> An accepted click plans the transition: direction, step count, and a total
    duration of \<open>ANIMATION_DURATION\<close>.
  \<^item> Refinement of an abstract selection register (\<open>abs_selection\<close>): every event
    sets the register to the index an accepted click asked for, or leaves it.
  \<^item> Completion under spaced frames, and the per-frame carousel offset.
  \<^item> Construction: its outcomes and geometry, the irrelevance of items past the
    tenth, the box as the maximum item size (\<open>Math.max.apply\<close> against \<open>Max\<close>),
    and the range of \<open>trunc\<close>.

  In \<open>Slider_DOM\<close>:
  \<^item> A successful construction builds exactly the reference tree \<open>slider_dom\<close>.
    The proof computes the steps on an association list laid over the document
    (\<open>overlay\<close>), after a closed form of the indicator loop.
  \<^item> Every path of the construction keeps the document a well-formed tree
    (\<open>dom_wf\<close>).
  \<^item> A construction that throws on a non-element item has already attached the
    slider to the page.
  \<^item> \<open>window.onload\<close> builds a ten-slide and a one-slide slider when the ids
    exist. A missing id among the first ten aborts the handler before the last slider.

  In \<open>Animation\<close>:
  \<^item> Progress accumulates elapsed time over the duration, clamped to 1.
  \<^item> Any well-typed sequence of method calls and frames keeps the driver
    well-formed (\<open>anim_ops_typed\<close>, over the datatype \<open>anim_call\<close> of calls).
  \<^item> \<open>reverse\<close> keeps the reported progress continuous, and the next frame moves it
    the other way. \<open>slow(k)\<close> with \<open>k > 1\<close> slows the next frame. Frames of a
    paused animation leave it unchanged. A cycled animation restarts at the frame
    that completes it.
  \<^item> \<open>run\<close> always returns.
  \<^item> The default \<open>onUpdate\<close> cancels the animation.
  \<^item> Three divergences from the spec: time before \<open>pause()\<close> is lost, a frame
    already queued when \<open>cancel()\<close> is called still runs \<open>onFinish\<close>, and
    \<open>setDuration\<close> rescales the running animation's next frame.

  In \<open>Notab\<close>:
  \<^item> The invariant \<open>page_inv\<close> holds on every page reachable by valid events
    (\<open>page_reachable\<close>), by rule induction.
  \<^item> From the invariant: the banner is shown at most once and never reappears after
    it is accepted. The scroll effect's values stay in range, and they freeze in
    their final pose once \<open>scroll2\<close> removes itself. A click on the accept button
    before \<open>load\<close> is ignored.
  \<^item> \<open>validate\<close> marks empty fields and submits exactly when none is empty. On a
    form without a textarea it throws a \<open>TypeError\<close> after marking the inputs.

  \<^bold>\<open>Fuel and time.\<close> A synchronous call chain happens at a single instant \<open>now\<close>:
  the clock does not advance inside one event handler. The fuel of
  \<open>run_with\<close>/\<open>animate_with\<close> is the nesting depth of these calls. Two levels are
  enough for \<open>run()\<close> (\<open>Animation.run_with_returns\<close>). Three are enough for any
  slider event (\<open>SLIDER_FUEL\<close>, \<open>Slider.reachable_events_return\<close>): a frame, its
  \<open>onFinish\<close>, and the next step's \<open>run()\<close> with its \<open>animate()\<close>. Timestamps
  are integers, as \<open>Date.valueOf()\<close> returns them. Events are assumed to arrive in
  nondecreasing time order.

  \<^bold>\<open>Not modelled.\<close>
  \<^item> JavaScript numbers are modelled as exact reals. Rounding, \<open>NaN\<close> and
    infinities are not modelled; the invariants keep every division well-defined.
  \<^item> The source leaves \<open>start\<close> and \<open>progress\<close> undefined before the first
    \<open>run()\<close>; the model starts them at 0.
  \<^item> Items are assumed to be distinct DOM nodes. The source asks for this, and node
    aliasing is not modelled. The items' own nodes are not in the store of
    \<open>Slider_DOM\<close>: hiding them (line 190) and moving them between the containers
    are followed by the slider model (\<open>shownItems\<close>, \<open>currentChild\<close>,
    \<open>nextChild\<close>).
  \<^item> \<open>window_onload\<close> keeps the results of its constructions; their DOM effects are
    modelled one construction at a time by \<open>createSliderDOM\<close>, not merged into one
    store for the two sliders attached to the page.
  \<^item> CSS strings are modelled by the numbers in them; an assignment of
    \<open>"NaNpx"\<close> is ignored, as the browser does.
  \<^item> In \<open>Notab.js\<close>, the page's markup decides the banner's initial class
    (hidden) and the stylesheet's pose before the first \<open>scroll2\<close>. The model
    takes the class as given and leaves the pose as \<open>None\<close>. The mission section
    is assumed to have a positive height, so \<open>scroll2\<close> never divides by zero.
    Element lookups by id and the CSS strings are not modelled; the model keeps only
    the numbers in them.
\<close>

end
